theory Spec2Isabelle
  imports Main "HOL-Library.Sublist" "HOL-Library.Word"
begin

section \<open>The node transpiler and its on-disk cache\<close>

text \<open>
  The development embeds \<^verbatim>\<open>NodeTranspiler\<close> (the wrapper around babel with a
  content-addressed cache of transpiled sources) and \<^verbatim>\<open>cacheWriteAsync\<close>.
  JavaScript strings and buffers are byte lists (\<^typ>\<open>string\<close>); encoding a string as
  UTF-8 and decoding it again is the identity on them. A thrown exception is the \<open>Inl\<close>
  summand of the result. The object \<^verbatim>\<open>this\<close> is a record that every method returns
  updated, and everything outside the object (files, console, scheduled callbacks) is the
  record \<open>world\<close>.
\<close>

subsection \<open>Paths and the file system the code calls into\<close>

text \<open>
  A path is the list of its components, so \<^verbatim>\<open>path.join\<close> appends components and
  \<^verbatim>\<open>path.dirname\<close> drops the last one. The empty path is the root (and the empty
  string where the code tests a path for truthiness).
\<close>

type_synonym path = "string list"

definition path_join :: "path \<Rightarrow> string list \<Rightarrow> path" where
  "path_join dir names = dir @ names"

definition path_dirname :: "path \<Rightarrow> path" where
  "path_dirname p = butlast p"

datatype errno = ENOENT | EACCES | EISDIR | ENOTDIR | EEXIST | EIO

datatype node = File string | Dir

datatype fs_call =
    Stat path
  | Read path
  | Mkdirp path
  | WriteFile path
  | Rename path path
  | Unlink path

text \<open>
  The calls below belong to Node's \<^verbatim>\<open>fs\<close> module and to the \<^verbatim>\<open>mkdirp\<close> package, which
  the module imports; they are modelled with the behaviour the transpiler relies on:
  existence check, whole-file read, creation of a directory with its ancestors, whole-file
  write, rename and unlink. The file system is a table of nodes together with \<open>fault\<close>,
  which makes a given call fail with a given error whatever the table holds (a permission
  failure, an I/O error). A call that fails leaves the table as it was.
\<close>

record filesystem =
  nodes :: "path \<rightharpoonup> node"
  fault :: "fs_call \<Rightarrow> errno option"

definition is_file :: "filesystem \<Rightarrow> path \<Rightarrow> bool" where
  "is_file fs p = (case nodes fs p of Some (File c) \<Rightarrow> True | _ \<Rightarrow> False)"

definition is_dir :: "filesystem \<Rightarrow> path \<Rightarrow> bool" where
  "is_dir fs p = (p = [] \<or> nodes fs p = Some Dir)"

text \<open>\<^verbatim>\<open>fs.existsSync\<close> never throws: any failure of the underlying stat reads as false.\<close>

definition existsSync :: "filesystem \<Rightarrow> path \<Rightarrow> bool" where
  "existsSync fs p = (fault fs (Stat p) = None \<and> (p = [] \<or> nodes fs p \<noteq> None))"

definition readFileSync :: "filesystem \<Rightarrow> path \<Rightarrow> errno + string" where
  "readFileSync fs p =
     (case fault fs (Read p) of
        Some e \<Rightarrow> Inl e
      | None \<Rightarrow>
          (if p = [] then Inl EISDIR
           else case nodes fs p of
                  None \<Rightarrow> Inl ENOENT
                | Some Dir \<Rightarrow> Inl EISDIR
                | Some (File c) \<Rightarrow> Inr c))"

definition mkdirp :: "filesystem \<Rightarrow> path \<Rightarrow> errno + filesystem" where
  "mkdirp fs p =
     (case fault fs (Mkdirp p) of
        Some e \<Rightarrow> Inl e
      | None \<Rightarrow>
          (if is_file fs p then Inl EEXIST
           else if list_ex (is_file fs) (prefixes p) then Inl ENOTDIR
           else Inr (fs\<lparr>nodes := fold (\<lambda>q m. m(q \<mapsto> Dir)) (tl (prefixes p)) (nodes fs)\<rparr>)))"

definition writeFile :: "filesystem \<Rightarrow> path \<Rightarrow> string \<Rightarrow> errno + filesystem" where
  "writeFile fs p c =
     (case fault fs (WriteFile p) of
        Some e \<Rightarrow> Inl e
      | None \<Rightarrow>
          (if p = [] \<or> nodes fs p = Some Dir then Inl EISDIR
           else if \<not> is_dir fs (path_dirname p) then Inl ENOENT
           else Inr (fs\<lparr>nodes := (nodes fs)(p \<mapsto> File c)\<rparr>)))"

definition rename :: "filesystem \<Rightarrow> path \<Rightarrow> path \<Rightarrow> errno + filesystem" where
  "rename fs old new =
     (case fault fs (Rename old new) of
        Some e \<Rightarrow> Inl e
      | None \<Rightarrow>
          (case nodes fs old of
             None \<Rightarrow> Inl ENOENT
           | Some n \<Rightarrow>
               (if new = [] \<or> (n \<noteq> Dir \<and> nodes fs new = Some Dir) then Inl EISDIR
                else if n = Dir \<and> is_file fs new then Inl ENOTDIR
                else if \<not> is_dir fs (path_dirname new) then Inl ENOENT
                else Inr (fs\<lparr>nodes := ((nodes fs)(old := None))(new \<mapsto> n)\<rparr>))))"

definition unlink :: "filesystem \<Rightarrow> path \<Rightarrow> errno + filesystem" where
  "unlink fs p =
     (case fault fs (Unlink p) of
        Some e \<Rightarrow> Inl e
      | None \<Rightarrow>
          (case nodes fs p of
             None \<Rightarrow> Inl ENOENT
           | Some Dir \<Rightarrow> Inl EISDIR
           | Some (File c) \<Rightarrow> Inr (fs\<lparr>nodes := (nodes fs)(p := None)\<rparr>)))"

subsection \<open>Constants of the module\<close>

definition NUL :: char where
  "NUL = CHR 0x00"

text \<open>
  \<^verbatim>\<open>PREFIXES = ["'use babel'", '"use babel"', '/* @flow */', '/** @babel */']\<close>;
  the quote characters are written by their codes.
\<close>

definition PREFIXES :: "string list" where
  "PREFIXES =
     [ [CHR 0x27] @ ''use babel'' @ [CHR 0x27],
       [CHR 0x22] @ ''use babel'' @ [CHR 0x22],
       ''/* @flow */'',
       ''/** @babel */'' ]"

definition PREFIX_LENGTH :: nat where
  "PREFIX_LENGTH = foldr max (map length PREFIXES) 0"

record babel_options =
  breakConfig :: bool
  blacklist :: "string list"
  optional :: "string list"
  stage :: nat
  plugins :: "path list"

text \<open>
  The engine: \<^verbatim>\<open>babel.transform(input, options).code\<close>, which returns the code or
  throws a diagnostic.
\<close>

type_synonym babel = "string \<Rightarrow> babel_options \<Rightarrow> string + string"

text \<open>
  What the module takes from its platform: the SHA-1 function of \<^verbatim>\<open>crypto\<close>,
  \<^verbatim>\<open>JSON.stringify\<close> on the options table, \<^verbatim>\<open>os.tmpdir()\<close>, the module's own
  \<^verbatim>\<open>__filename\<close>, \<^verbatim>\<open>require.resolve\<close>, the sequence of values that
  \<^verbatim>\<open>uuid.v4()\<close> returns, and the installed \<^verbatim>\<open>babel-core\<close> with its version.
\<close>

record platform =
  sha1 :: "string \<Rightarrow> 160 word"
  JSON_stringify :: "babel_options \<Rightarrow> string"
  tmpdir :: path
  module_filename :: path
  require_resolve :: "string \<Rightarrow> path"
  uuid_v4 :: "nat \<Rightarrow> string"
  babel_core_version :: string
  babel_core :: babel

definition BABEL_OPTIONS :: "platform \<Rightarrow> babel_options" where
  "BABEL_OPTIONS pf =
     \<lparr> breakConfig = True,
       blacklist = [''es3.memberExpressionLiterals'', ''es6.forOf'', ''useStrict''],
       optional = [''asyncToGenerator''],
       stage = 1,
       plugins = [require_resolve pf ''./remove-use-babel-tr'',
                  require_resolve pf ''./inline-imports-tr''] \<rparr>"

text \<open>\<^verbatim>\<open>hash.digest('hex')\<close>: the 160 bits as 40 lower-case hexadecimal digits.\<close>

definition hexdigit :: "nat \<Rightarrow> char" where
  "hexdigit n = ''0123456789abcdef'' ! (n mod 16)"

definition nibble :: "160 word \<Rightarrow> nat \<Rightarrow> nat" where
  "nibble h i = unat (take_bit 4 (drop_bit (4 * i) h))"

definition digest_hex :: "160 word \<Rightarrow> string" where
  "digest_hex h = map (\<lambda>i. hexdigit (nibble h (39 - i))) [0..<40]"

subsection \<open>State\<close>

datatype exn = BabelError string | FsError errno

datatype console_line = Error_transpiling string | Transpiler_error errno

text \<open>A scheduled \<^verbatim>\<open>cacheWriteAsync\<close>: the values its callbacks close over.\<close>

record writeback =
  wb_basedir :: path
  wb_tmpName :: path
  wb_filename :: path
  wb_src :: string

text \<open>
  \<open>babel_inputs\<close> records every input handed to \<^verbatim>\<open>babel.transform\<close>, \<open>uuids_drawn\<close>
  counts the calls of \<^verbatim>\<open>uuid.v4()\<close>, and \<open>pending\<close> holds the write-backs that were
  started and whose callbacks have not run yet.
\<close>

record world =
  fs :: filesystem
  console :: "console_line list"
  babel_inputs :: "string list"
  uuids_drawn :: nat
  pending :: "writeback list"

record transpiler =
  babelVersion :: string
  getBabel :: "unit \<Rightarrow> babel"
  babel :: "babel option"
  cacheDir :: "path option"
  configDigest :: "string option"

text \<open>JavaScript truthiness of a field that is \<^verbatim>\<open>null\<close> or a string.\<close>

definition falsy :: "'a list option \<Rightarrow> bool" where
  "falsy v = (case v of None \<Rightarrow> True | Some s \<Rightarrow> s = [])"

subsection \<open>NodeTranspiler\<close>

definition shouldCompile :: "string \<Rightarrow> bool" where
  "shouldCompile bufferOrString =
     (let start = take PREFIX_LENGTH bufferOrString
      in list_ex (\<lambda>p. prefix p start) PREFIXES)"

text \<open>The constructor; an absent \<^verbatim>\<open>babelVersion\<close> is the empty string.\<close>

definition NodeTranspiler :: "platform \<Rightarrow> string \<Rightarrow> (unit \<Rightarrow> babel) \<Rightarrow> transpiler" where
  "NodeTranspiler pf version get =
     (if version \<noteq> []
      then \<lparr> babelVersion = version, getBabel = get,
             babel = None, cacheDir = None, configDigest = None \<rparr>
      else \<lparr> babelVersion = babel_core_version pf, getBabel = (\<lambda>_. babel_core pf),
             babel = None, cacheDir = None, configDigest = None \<rparr>)"

text \<open>
  The streaming hash is the byte string fed to it so far. \<open>config_header\<close> is the part
  of \<^verbatim>\<open>getConfigDigest\<close> before the files are read.
\<close>

definition config_header :: "platform \<Rightarrow> string \<Rightarrow> string" where
  "config_header pf version =
     ''babel-core'' @ [NUL] @ version @ [NUL] @ JSON_stringify pf (BABEL_OPTIONS pf)"

definition logic_units :: "platform \<Rightarrow> path list" where
  "logic_units pf = filter (\<lambda>p. p \<noteq> []) ([module_filename pf] @ plugins (BABEL_OPTIONS pf))"

fun update_files :: "filesystem \<Rightarrow> path list \<Rightarrow> string \<Rightarrow> errno + string" where
  "update_files fsys [] hash = Inr hash"
| "update_files fsys (pluginFile # rest) hash =
     (case readFileSync fsys pluginFile of
        Inl e \<Rightarrow> Inl e
      | Inr bytes \<Rightarrow> update_files fsys rest (hash @ bytes @ [NUL]))"

definition getConfigDigest ::
  "platform \<Rightarrow> transpiler \<Rightarrow> world \<Rightarrow> (exn + string) \<times> transpiler" where
  "getConfigDigest pf this w =
     (if falsy (configDigest this) then
        (case update_files (fs w) (logic_units pf) (config_header pf (babelVersion this)) of
           Inl e \<Rightarrow> (Inl (FsError e), this)
         | Inr hash \<Rightarrow>
             (let d = digest_hex (sha1 pf hash)
              in (Inr d, this\<lparr>configDigest := Some d\<rparr>)))
      else (case configDigest this of
              Some d \<Rightarrow> (Inr d, this)
            | None \<Rightarrow> (Inr [], this)))"

text \<open>
  The babel handle after \<^verbatim>\<open>if (!this._babel) this._babel = this._getBabel()\<close>;
  loading babel is taken to succeed.
\<close>

definition loaded_babel :: "transpiler \<Rightarrow> babel" where
  "loaded_babel this = (case babel this of None \<Rightarrow> getBabel this () | Some b \<Rightarrow> b)"

definition transform ::
  "platform \<Rightarrow> transpiler \<Rightarrow> world \<Rightarrow> string \<Rightarrow> string \<Rightarrow> (exn + string) \<times> transpiler \<times> world" where
  "transform pf this w src filename =
     (let b = loaded_babel this;
          this' = this\<lparr>babel := Some b\<rparr>;
          w' = w\<lparr>babel_inputs := babel_inputs w @ [src]\<rparr>
      in case b src (BABEL_OPTIONS pf) of
           Inr output \<Rightarrow> (Inr output, this', w')
         | Inl err \<Rightarrow>
             (Inl (BabelError err), this',
              w'\<lparr>console := console w' @ [Error_transpiling filename]\<rparr>))"

definition getCacheFilename ::
  "platform \<Rightarrow> transpiler \<Rightarrow> world \<Rightarrow> string \<Rightarrow> (exn + path) \<times> transpiler" where
  "getCacheFilename pf this w src =
     (let fileDigest = digest_hex (sha1 pf src)
      in if falsy (cacheDir this) then
           (case getConfigDigest pf this w of
              (Inl e, this') \<Rightarrow> (Inl e, this')
            | (Inr d, this') \<Rightarrow>
                (let dir = path_join (tmpdir pf) [''nuclide-node-transpiler'', d]
                 in (Inr (path_join dir [fileDigest @ ''.js'']),
                     this'\<lparr>cacheDir := Some dir\<rparr>)))
         else (case cacheDir this of
                 Some dir \<Rightarrow> (Inr (path_join dir [fileDigest @ ''.js'']), this)
               | None \<Rightarrow> (Inr (path_join [] [fileDigest @ ''.js'']), this)))"

text \<open>
  \<^verbatim>\<open>cacheWriteAsync\<close> up to its return: it picks the temporary name and starts
  \<^verbatim>\<open>mkdirp\<close>, whose callback runs later.
\<close>

definition cacheWriteAsync :: "platform \<Rightarrow> path \<Rightarrow> string \<Rightarrow> world \<Rightarrow> world" where
  "cacheWriteAsync pf filename src w =
     (let basedir = path_dirname filename;
          tmpName = path_join basedir [''.'' @ uuid_v4 pf (uuids_drawn w)]
      in w\<lparr> uuids_drawn := Suc (uuids_drawn w),
            pending := pending w @
              [\<lparr> wb_basedir = basedir, wb_tmpName = tmpName,
                 wb_filename = filename, wb_src = src \<rparr>] \<rparr>)"

text \<open>
  The callbacks of one write-back, run to their end: \<^verbatim>\<open>mkdirp\<close>, then
  \<^verbatim>\<open>fs.writeFile\<close>, then \<^verbatim>\<open>fs.rename\<close>, and \<^verbatim>\<open>fs.unlink\<close> with the empty
  callback when the rename failed.
\<close>

definition run_writeback :: "writeback \<Rightarrow> world \<Rightarrow> world" where
  "run_writeback wb w =
     (case mkdirp (fs w) (wb_basedir wb) of
        Inl mkdirErr \<Rightarrow> w\<lparr>console := console w @ [Transpiler_error mkdirErr]\<rparr>
      | Inr fs1 \<Rightarrow>
          (case writeFile fs1 (wb_tmpName wb) (wb_src wb) of
             Inl writeError \<Rightarrow>
               w\<lparr>fs := fs1, console := console w @ [Transpiler_error writeError]\<rparr>
           | Inr fs2 \<Rightarrow>
               (case rename fs2 (wb_tmpName wb) (wb_filename wb) of
                  Inl renameErr \<Rightarrow>
                    w\<lparr>fs := (case unlink fs2 (wb_tmpName wb) of
                                Inl unlinkErr \<Rightarrow> fs2
                              | Inr fs3 \<Rightarrow> fs3),
                      console := console w @ [Transpiler_error renameErr]\<rparr>
                | Inr fs3 \<Rightarrow> w\<lparr>fs := fs3\<rparr>)))"

text \<open>The event loop runs every pending write-back, in the order they were started.\<close>

definition run_pending :: "world \<Rightarrow> world" where
  "run_pending w = fold run_writeback (pending w) (w\<lparr>pending := []\<rparr>)"

text \<open>
  The write-backs started after the first \<open>n\<close> pending ones run to their end; the first
  \<open>n\<close> stay pending. With \<open>n\<close> the number of write-backs pending before a call, this is
  the world in which the write-back of that call has completed.
\<close>

definition settle :: "nat \<Rightarrow> world \<Rightarrow> world" where
  "settle n w = fold run_writeback (drop n (pending w)) (w\<lparr>pending := take n (pending w)\<rparr>)"

definition transformWithCache ::
  "platform \<Rightarrow> transpiler \<Rightarrow> world \<Rightarrow> string \<Rightarrow> string \<Rightarrow> (exn + string) \<times> transpiler \<times> world" where
  "transformWithCache pf this w src filename =
     (case getCacheFilename pf this w src of
        (Inl e, this1) \<Rightarrow> (Inl e, this1, w)
      | (Inr cacheFilename, this1) \<Rightarrow>
          (if existsSync (fs w) cacheFilename then
             (case readFileSync (fs w) cacheFilename of
                Inl e \<Rightarrow> (Inl (FsError e), this1, w)
              | Inr cached \<Rightarrow> (Inr cached, this1, w))
           else
             (case transform pf this1 w src filename of
                (Inl e, this2, w2) \<Rightarrow> (Inl e, this2, w2)
              | (Inr output, this2, w2) \<Rightarrow>
                  (Inr output, this2, cacheWriteAsync pf cacheFilename output w2))))"

subsection \<open>A sample installation\<close>

text \<open>
  A small installation on which the definitions can be evaluated: an engine that rejects any
  input containing \<open>#\<close>, a stand-in for SHA-1, the three source files that are hashed into
  the configuration digest, and an empty temporary directory.
\<close>

definition sample_babel :: babel where
  "sample_babel input opts =
     (if CHR ''#'' \<in> set input then Inl ''SyntaxError'' else Inr (''compiled:'' @ input))"

definition sample_platform :: platform where
  "sample_platform =
     \<lparr> sha1 = (\<lambda>s. of_nat (length s)),
       JSON_stringify = (\<lambda>opts. ''{}''),
       tmpdir = [''tmp''],
       module_filename = [''lib'', ''NodeTranspiler.js''],
       require_resolve = (\<lambda>m. [''lib'', drop 2 m @ ''.js'']),
       uuid_v4 = (\<lambda>n. replicate (Suc n) (CHR ''u'')),
       babel_core_version = ''5.8.38'',
       babel_core = sample_babel \<rparr>"

definition sample_nodes :: "path \<rightharpoonup> node" where
  "sample_nodes =
     [ [''lib''] \<mapsto> Dir,
       [''lib'', ''NodeTranspiler.js''] \<mapsto> File ''T'',
       [''lib'', ''remove-use-babel-tr.js''] \<mapsto> File ''R'',
       [''lib'', ''inline-imports-tr.js''] \<mapsto> File ''I'',
       [''tmp''] \<mapsto> Dir ]"

definition sample_world :: world where
  "sample_world =
     \<lparr> fs = \<lparr> nodes = sample_nodes, fault = (\<lambda>c. None) \<rparr>,
       console = [], babel_inputs = [], uuids_drawn = 0, pending = [] \<rparr>"

definition sample_transpiler :: transpiler where
  "sample_transpiler = NodeTranspiler sample_platform [] (\<lambda>u. sample_babel)"

definition sample_src :: string where
  "sample_src = ''/* @flow */ f()''"

definition sample_first :: "(exn + string) \<times> transpiler \<times> world" where
  "sample_first =
     transformWithCache sample_platform sample_transpiler sample_world sample_src ''f.js''"

text \<open>
  The same installation with the cache entry of \<open>sample_src\<close> already on disk, where
  the listed calls fail with the listed errors.
\<close>

definition sample_cache_dir :: path where
  "sample_cache_dir =
     [''tmp'', ''nuclide-node-transpiler'', ''000000000000000000000000000000000000001a'']"

definition sample_cache_file :: path where
  "sample_cache_file = sample_cache_dir @ [''000000000000000000000000000000000000000f.js'']"

definition cached_world :: "(fs_call \<times> errno) list \<Rightarrow> world" where
  "cached_world denied =
     sample_world
       \<lparr> fs := \<lparr> nodes = sample_nodes
                     ([''tmp'', ''nuclide-node-transpiler''] \<mapsto> Dir,
                      sample_cache_dir \<mapsto> Dir,
                      sample_cache_file \<mapsto> File ''cached''),
                  fault = map_of denied \<rparr> \<rparr>"

text \<open>The write-back that the first call on the sample installation starts.\<close>

definition sample_writeback :: writeback where
  "sample_writeback =
     \<lparr> wb_basedir = sample_cache_dir,
       wb_tmpName = sample_cache_dir @ [''.u''],
       wb_filename = sample_cache_file,
       wb_src = ''compiled:/* @flow */ f()'' \<rparr>"

text \<open>
  The sample installation, its cache still empty, where the listed calls fail with the
  listed errors; and the first call there.
\<close>

definition faulty_world :: "(fs_call \<times> errno) list \<Rightarrow> world" where
  "faulty_world denied =
     sample_world \<lparr> fs := \<lparr> nodes = sample_nodes, fault = map_of denied \<rparr> \<rparr>"

definition faulty_first :: "(fs_call \<times> errno) list \<Rightarrow> (exn + string) \<times> transpiler \<times> world" where
  "faulty_first denied =
     transformWithCache sample_platform sample_transpiler (faulty_world denied) sample_src ''f.js''"

text \<open>The sample installation with other bytes in its two plugin files.\<close>

definition plugin_world :: "string \<Rightarrow> string \<Rightarrow> world" where
  "plugin_world r i =
     sample_world
       \<lparr> fs := \<lparr> nodes = sample_nodes
                     ([''lib'', ''remove-use-babel-tr.js''] \<mapsto> File r,
                      [''lib'', ''inline-imports-tr.js''] \<mapsto> File i),
                  fault = (\<lambda>c. None) \<rparr> \<rparr>"

text \<open>The sample installation where nothing can be created or written.\<close>

definition readonly_world :: world where
  "readonly_world =
     sample_world
       \<lparr> fs := \<lparr> nodes = sample_nodes,
                  fault = (\<lambda>c. case c of Mkdirp q \<Rightarrow> Some EACCES
                                       | WriteFile q \<Rightarrow> Some EACCES
                                       | _ \<Rightarrow> None) \<rparr> \<rparr>"

subsection \<open>Notions used to state the properties\<close>

text \<open>The bytes that a list of file contents adds to the hash: each followed by a null byte.\<close>

definition terminated :: "string list \<Rightarrow> string" where
  "terminated cs = concat (map (\<lambda>c. c @ [NUL]) cs)"

text \<open>
  The bytes that \<^verbatim>\<open>getConfigDigest\<close> feeds to the hash for a version, a serialised
  options table and the contents of the hashed files.
\<close>

definition hash_input :: "string \<Rightarrow> string \<Rightarrow> string list \<Rightarrow> string" where
  "hash_input version json cs = ''babel-core'' @ [NUL] @ version @ [NUL] @ json @ terminated cs"

text \<open>A directory under which every creation of a directory and every write of a file fails.\<close>

definition unwritable :: "filesystem \<Rightarrow> path \<Rightarrow> bool" where
  "unwritable fsys dir \<longleftrightarrow>
     (\<forall>q. prefix dir q \<longrightarrow> fault fsys (Mkdirp q) \<noteq> None \<and> fault fsys (WriteFile q) \<noteq> None)"

section \<open>The prefilter\<close>

lemma PREFIX_LENGTH_13: "PREFIX_LENGTH = 13"
  by (simp add: PREFIX_LENGTH_def PREFIXES_def)

lemma prefix_take_window:
  "length p \<le> n \<Longrightarrow> prefix p (take n s) \<longleftrightarrow> prefix p s"
proof
  assume "prefix p (take n s)"
  then show "prefix p s" using take_is_prefix prefix_order.trans by blast
next
  assume a: "length p \<le> n" "prefix p s"
  then obtain zs where "s = p @ zs" by (auto simp: prefix_def)
  with a show "prefix p (take n s)" by (simp add: prefix_def)
qed

lemma PREFIXES_length_le: "p \<in> set PREFIXES \<Longrightarrow> length p \<le> PREFIX_LENGTH"
  by (auto simp: PREFIX_LENGTH_def PREFIXES_def)

section \<open>Hexadecimal digests\<close>

lemma length_digest_hex: "length (digest_hex h) = 40"
  by (simp add: digest_hex_def)

lemma digest_hex_not_Nil: "digest_hex h \<noteq> []"
  using length_digest_hex [of h] by auto

lemma hexdigit_inj: "m < 16 \<Longrightarrow> n < 16 \<Longrightarrow> hexdigit m = hexdigit n \<Longrightarrow> m = n"
proof -
  have d: "distinct ''0123456789abcdef''" by simp
  assume "m < 16" "n < 16" "hexdigit m = hexdigit n"
  then show ?thesis
    using d by (simp add: hexdigit_def nth_eq_iff_index_eq del: distinct.simps)
qed

lemma nibble_less: "nibble h i < 16"
proof -
  have "nibble h i = take_bit 4 (unat (drop_bit (4 * i) h))"
    by (simp add: nibble_def unsigned_take_bit_eq)
  also have "\<dots> < 2 ^ 4" by (rule take_bit_nat_less_exp)
  finally show ?thesis by simp
qed

lemma nibble_eqD:
  assumes "nibble a i = nibble b i" and "k < 4"
  shows "bit a (4 * i + k) \<longleftrightarrow> bit b (4 * i + k)"
proof -
  from assms(1) have "take_bit 4 (drop_bit (4 * i) a) = take_bit 4 (drop_bit (4 * i) b)"
    by (simp add: nibble_def word_unat_eq_iff)
  then have "bit (take_bit 4 (drop_bit (4 * i) a)) k \<longleftrightarrow> bit (take_bit 4 (drop_bit (4 * i) b)) k"
    by simp
  with assms(2) show ?thesis
    by (simp add: bit_take_bit_iff bit_drop_bit_eq)
qed

text \<open>Two hashes with the same hexadecimal digest are the same hash.\<close>

lemma digest_hex_inj:
  assumes "digest_hex a = digest_hex b"
  shows "a = b"
proof (rule bit_word_eqI)
  fix n
  assume n: "n < LENGTH(160)"
  then have j: "39 - (39 - n div 4) = n div 4" "39 - n div 4 < 40" by simp_all
  from assms have "map (\<lambda>i. hexdigit (nibble a (39 - i))) [0..<40] ! (39 - n div 4)
      = map (\<lambda>i. hexdigit (nibble b (39 - i))) [0..<40] ! (39 - n div 4)"
    by (simp add: digest_hex_def)
  then have "hexdigit (nibble a (n div 4)) = hexdigit (nibble b (n div 4))"
    using j by (simp del: upt_Suc)
  then have "nibble a (n div 4) = nibble b (n div 4)"
    by (rule hexdigit_inj [OF nibble_less nibble_less])
  from nibble_eqD [OF this, of "n mod 4"] show "bit a n \<longleftrightarrow> bit b n"
    by simp
qed

lemma terminated_Cons: "terminated (c # cs) = c @ NUL # terminated cs"
  by (simp add: terminated_def)

lemma update_files_Inr_iff:
  "update_files fsys files h = Inr s \<longleftrightarrow>
     (\<exists>cs. map (readFileSync fsys) files = map Inr cs \<and> s = h @ terminated cs)"
proof (induction files arbitrary: h)
  case Nil
  then show ?case by (auto simp: terminated_def)
next
  case (Cons f files)
  show ?case
  proof (cases "readFileSync fsys f")
    case (Inl e)
    then show ?thesis by (auto simp: map_eq_Cons_conv)
  next
    case (Inr c)
    have "(\<exists>cs. map (readFileSync fsys) (f # files) = map Inr cs \<and> s = h @ terminated cs)
        \<longleftrightarrow> (\<exists>cs'. map (readFileSync fsys) files = map Inr cs' \<and> s = (h @ c @ [NUL]) @ terminated cs')"
      (is "?L \<longleftrightarrow> ?R")
    proof
      assume ?L
      then obtain cs where cs: "map (readFileSync fsys) (f # files) = map Inr cs" "s = h @ terminated cs"
        by blast
      then obtain cs' where "cs = c # cs'" "map (readFileSync fsys) files = map Inr cs'"
        using Inr by (cases cs) auto
      with cs show ?R by (auto simp: terminated_Cons)
    next
      assume ?R
      then obtain cs' where "map (readFileSync fsys) files = map Inr cs'" "s = (h @ c @ [NUL]) @ terminated cs'"
        by blast
      then have "map (readFileSync fsys) (f # files) = map Inr (c # cs') \<and> s = h @ terminated (c # cs')"
        using Inr by (simp add: terminated_Cons)
      then show ?L by blast
    qed
    with Inr show ?thesis by (simp add: Cons.IH)
  qed
qed

lemma update_files_Inl:
  "update_files fsys files h = Inl e \<Longrightarrow> \<exists>f\<in>set files. readFileSync fsys f = Inl e"
  by (induction files arbitrary: h) (auto split: sum.splits)

lemma update_files_fails:
  "f \<in> set files \<Longrightarrow> readFileSync fsys f = Inl e' \<Longrightarrow> \<exists>e. update_files fsys files h = Inl e"
  by (induction files arbitrary: h) (auto split: sum.splits)

lemma update_files_cong:
  "(\<And>f. f \<in> set files \<Longrightarrow> readFileSync a f = readFileSync b f) \<Longrightarrow>
   update_files a files h = update_files b files h"
  by (induction files arbitrary: h) (auto split: sum.splits)

lemma getConfigDigest_memoized:
  assumes "getConfigDigest pf this w = (Inr d, this')"
  shows "configDigest this' = Some d \<and> d \<noteq> []"
  using assms
  by (auto simp: getConfigDigest_def falsy_def Let_def digest_hex_not_Nil
           split: if_splits sum.splits option.splits)

lemma getConfigDigest_again:
  assumes "configDigest this = Some d" and "d \<noteq> []"
  shows "getConfigDigest pf this w = (Inr d, this)"
  using assms by (simp add: getConfigDigest_def falsy_def)

section \<open>The cache file name\<close>

lemma getCacheFilename_Inr:
  assumes "getCacheFilename pf this w src = (Inr p, this1)"
  shows "\<exists>dir. cacheDir this1 = Some dir \<and> dir \<noteq> [] \<and>
           p = dir @ [digest_hex (sha1 pf src) @ ''.js'']"
    and "babel this1 = babel this" and "getBabel this1 = getBabel this"
    and "babelVersion this1 = babelVersion this"
  using assms
  by (auto simp: getCacheFilename_def getConfigDigest_def falsy_def Let_def path_join_def
           split: if_splits sum.splits option.splits prod.splits)

lemma getCacheFilename_again:
  assumes "cacheDir this = Some dir" and "dir \<noteq> []"
  shows "getCacheFilename pf this w src = (Inr (dir @ [digest_hex (sha1 pf src) @ ''.js'']), this)"
  using assms by (simp add: getCacheFilename_def falsy_def path_join_def)

lemma getCacheFilename_Inl:
  assumes "getCacheFilename pf this w src = (Inl e, this1)"
  shows "this1 = this \<and> getConfigDigest pf this w = (Inl e, this)"
  using assms
  by (auto simp: getCacheFilename_def getConfigDigest_def falsy_def Let_def path_join_def
           split: if_splits sum.splits option.splits prod.splits)

section \<open>File-system calls\<close>

lemma mkdirp_Inr: "mkdirp fsys p = Inr fs' \<Longrightarrow> fault fs' = fault fsys"
  by (auto simp: mkdirp_def split: option.splits if_splits)

lemma writeFile_Inr:
  "writeFile fsys p c = Inr fs' \<Longrightarrow> fault fs' = fault fsys \<and> nodes fs' = (nodes fsys)(p \<mapsto> File c)"
  by (auto simp: writeFile_def split: option.splits if_splits)

lemma rename_Inr:
  "rename fsys old new = Inr fs' \<Longrightarrow>
     fault fs' = fault fsys \<and> (\<exists>n. nodes fsys old = Some n \<and> nodes fs' = ((nodes fsys)(old := None))(new \<mapsto> n))"
  by (auto simp: rename_def split: option.splits if_splits)

lemma unlink_Inr:
  "unlink fsys p = Inr fs' \<Longrightarrow> fault fs' = fault fsys \<and> nodes fs' = (nodes fsys)(p := None)"
  by (auto simp: unlink_def split: option.splits if_splits node.splits)

lemma mkdirp_fault: "fault fsys (Mkdirp p) = Some e \<Longrightarrow> mkdirp fsys p = Inl e"
  by (simp add: mkdirp_def)

lemma readFileSync_File:
  "fault fsys (Read p) = None \<Longrightarrow> p \<noteq> [] \<Longrightarrow> nodes fsys p = Some (File c) \<Longrightarrow> readFileSync fsys p = Inr c"
  by (simp add: readFileSync_def)

lemma readFileSync_fault: "fault fsys (Read p) = Some e \<Longrightarrow> readFileSync fsys p = Inl e"
  by (simp add: readFileSync_def)

section \<open>The write-back\<close>

lemma run_writeback_frame:
  "babel_inputs (run_writeback wb w) = babel_inputs w"
  "uuids_drawn (run_writeback wb w) = uuids_drawn w"
  "pending (run_writeback wb w) = pending w"
  by (auto simp: run_writeback_def split: sum.splits)

lemma run_writeback_fault: "fault (fs (run_writeback wb w)) = fault (fs w)"
  by (auto simp: run_writeback_def split: sum.splits
           dest!: mkdirp_Inr writeFile_Inr rename_Inr unlink_Inr)

lemma run_writeback_quiet:
  assumes quiet: "console (run_writeback wb w) = console w"
  shows "nodes (fs (run_writeback wb w)) (wb_filename wb) = Some (File (wb_src wb))"
proof (cases "mkdirp (fs w) (wb_basedir wb)")
  case (Inl e)
  with quiet show ?thesis by (simp add: run_writeback_def)
next
  case mk: (Inr fs1)
  show ?thesis
  proof (cases "writeFile fs1 (wb_tmpName wb) (wb_src wb)")
    case (Inl e)
    with quiet mk show ?thesis by (simp add: run_writeback_def)
  next
    case wr: (Inr fs2)
    show ?thesis
    proof (cases "rename fs2 (wb_tmpName wb) (wb_filename wb)")
      case (Inl e)
      with quiet mk wr show ?thesis by (simp add: run_writeback_def)
    next
      case rn: (Inr fs3)
      from writeFile_Inr [OF wr] rename_Inr [OF rn]
      have "nodes fs3 (wb_filename wb) = Some (File (wb_src wb))" by auto
      with mk wr rn show ?thesis by (simp add: run_writeback_def)
    qed
  qed
qed

section \<open>Evaluating the sample installation\<close>

lemmas sample_defs = sample_babel_def sample_platform_def sample_nodes_def sample_world_def
  sample_transpiler_def NodeTranspiler_def sample_src_def

lemma digest_hex_26: "digest_hex (26 :: 160 word) = ''000000000000000000000000000000000000001a''"
  by code_simp

lemma digest_hex_15: "digest_hex (15 :: 160 word) = ''000000000000000000000000000000000000000f''"
  by code_simp

lemmas eval_defs = transformWithCache_def getCacheFilename_def getConfigDigest_def
  falsy_def logic_units_def BABEL_OPTIONS_def config_header_def readFileSync_def existsSync_def
  transform_def loaded_babel_def cacheWriteAsync_def path_join_def path_dirname_def Let_def
  digest_hex_26 digest_hex_15

lemma sample_first_call:
  "fst sample_first
     = Inr ''compiled:/* @flow */ f()''"
  by (simp add: sample_first_def eval_defs sample_defs)

lemma sample_first_pending:
  "pending (snd (snd sample_first))
   = [\<lparr> wb_basedir = [''tmp'', ''nuclide-node-transpiler'', ''000000000000000000000000000000000000001a''],
        wb_tmpName = [''tmp'', ''nuclide-node-transpiler'', ''000000000000000000000000000000000000001a'', ''.u''],
        wb_filename = [''tmp'', ''nuclide-node-transpiler'', ''000000000000000000000000000000000000001a'',
                       ''000000000000000000000000000000000000000f.js''],
        wb_src = ''compiled:/* @flow */ f()'' \<rparr>]"
  by (simp add: sample_first_def eval_defs sample_defs)

lemma sample_first_console:
  "console (snd (snd sample_first)) = []"
  by (simp add: sample_first_def eval_defs sample_defs)

lemma sample_first_fs:
  "fs (snd (snd sample_first)) = fs sample_world"
  by (simp add: sample_first_def eval_defs sample_defs)

lemma sample_mkdirp:
  "mkdirp (fs sample_world) [''tmp'', ''nuclide-node-transpiler'', ''000000000000000000000000000000000000001a'']
   = Inr \<lparr> nodes = sample_nodes([''tmp''] \<mapsto> Dir, [''tmp'', ''nuclide-node-transpiler''] \<mapsto> Dir,
         [''tmp'', ''nuclide-node-transpiler'', ''000000000000000000000000000000000000001a''] \<mapsto> Dir),
       fault = (\<lambda>c. None) \<rparr>"
  by (simp add: mkdirp_def is_file_def sample_world_def sample_nodes_def)

lemma sample_writeback_console:
  "console (run_pending (snd (snd sample_first))) = []"
  unfolding run_pending_def sample_first_pending
  by (simp add: run_writeback_def sample_first_fs sample_first_console sample_mkdirp writeFile_def rename_def
      is_file_def is_dir_def path_dirname_def sample_nodes_def)

section \<open>Transforming and scheduling\<close>

lemma transform_frame:
  assumes "transform pf this w src filename = (r, this', w')"
  shows "fs w' = fs w" and "pending w' = pending w" and "uuids_drawn w' = uuids_drawn w"
    and "cacheDir this' = cacheDir this" and "configDigest this' = configDigest this"
    and "babel_inputs w' = babel_inputs w @ [src]"
  using assms by (auto simp: transform_def Let_def split: sum.splits)

lemma transform_result:
  assumes "transform pf this w src filename = (r, this', w')"
  shows "r = map_sum BabelError id (loaded_babel this src (BABEL_OPTIONS pf))"
    and "console w' = console w @
           (case loaded_babel this src (BABEL_OPTIONS pf) of
              Inl err \<Rightarrow> [Error_transpiling filename] | Inr output \<Rightarrow> [])"
  using assms by (auto simp: transform_def Let_def split: sum.splits)

lemma cacheWriteAsync_frame:
  "fs (cacheWriteAsync pf p out w) = fs w"
  "console (cacheWriteAsync pf p out w) = console w"
  "babel_inputs (cacheWriteAsync pf p out w) = babel_inputs w"
  "pending (cacheWriteAsync pf p out w) = pending w @
     [\<lparr> wb_basedir = path_dirname p,
        wb_tmpName = path_dirname p @ [''.'' @ uuid_v4 pf (uuids_drawn w)],
        wb_filename = p, wb_src = out \<rparr>]"
  by (simp_all add: cacheWriteAsync_def Let_def path_join_def)

lemma run_pending_idle: "pending w = [] \<Longrightarrow> run_pending w = w"
  by (simp add: run_pending_def)

lemma run_pending_single:
  "pending w = [wb] \<Longrightarrow> run_pending w = run_writeback wb (w\<lparr>pending := []\<rparr>)"
  by (simp add: run_pending_def)

lemma transformWithCache_hit:
  assumes "getCacheFilename pf this w src = (Inr p, this1)"
      and "existsSync (fs w) p" and "readFileSync (fs w) p = Inr c"
  shows "transformWithCache pf this w src filename = (Inr c, this1, w)"
  using assms by (simp add: transformWithCache_def)

lemma transformWithCache_unreadable:
  assumes "getCacheFilename pf this w src = (Inr p, this1)"
      and "existsSync (fs w) p" and "readFileSync (fs w) p = Inl e"
  shows "transformWithCache pf this w src filename = (Inl (FsError e), this1, w)"
  using assms by (simp add: transformWithCache_def)

lemma transformWithCache_miss:
  assumes "getCacheFilename pf this w src = (Inr p, this1)"
      and "\<not> existsSync (fs w) p"
  shows "transformWithCache pf this w src filename =
           (case transform pf this1 w src filename of
              (Inl e, this2, w2) \<Rightarrow> (Inl e, this2, w2)
            | (Inr output, this2, w2) \<Rightarrow> (Inr output, this2, cacheWriteAsync pf p output w2))"
  using assms by (simp add: transformWithCache_def)

lemma sample_first_inputs: "babel_inputs (snd (snd sample_first)) = [sample_src]"
  by (simp add: sample_first_def eval_defs sample_defs)

section \<open>Claims about the prefilter\<close>

text \<open>
  C7 (prefilter exactness). \<^verbatim>\<open>shouldCompile\<close> is true exactly when one of the four
  directives of \<^verbatim>\<open>PREFIXES\<close> is a prefix of the input, compared byte for byte; so a
  directive that occurs only further inside the input does not count. The answer depends on
  the first \<^verbatim>\<open>PREFIX_LENGTH\<close> bytes only, and \<^verbatim>\<open>PREFIX_LENGTH\<close> is the length of the
  longest directive, 13. The function is total: it has no error case.
\<close>

theorem shouldCompile_exact:
  "(shouldCompile s \<longleftrightarrow> (\<exists>p\<in>set PREFIXES. prefix p s))
   \<and> shouldCompile s = shouldCompile (take PREFIX_LENGTH s)
   \<and> PREFIX_LENGTH = Max (length ` set PREFIXES)
   \<and> PREFIX_LENGTH = 13"
proof -
  have iff: "shouldCompile s \<longleftrightarrow> (\<exists>p\<in>set PREFIXES. prefix p s)" for s
    by (auto simp: shouldCompile_def list_ex_iff prefix_take_window PREFIXES_length_le)
  have "shouldCompile s = shouldCompile (take PREFIX_LENGTH s)"
    by (simp add: shouldCompile_def)
  moreover have "PREFIX_LENGTH = Max (length ` set PREFIXES)"
    by (simp add: PREFIX_LENGTH_def PREFIXES_def)
  ultimately show ?thesis
    using iff [of s] PREFIX_LENGTH_13 by simp
qed

theorem shouldCompile_exact_witness:
  "shouldCompile (''/** @babel */'' @ ''import x'')
   \<and> \<not> shouldCompile ('' /** @babel */'' @ ''import x'')
   \<and> \<not> shouldCompile ''/** @Babel */''
   \<and> \<not> shouldCompile (''x = 1; '' @ [CHR 0x27] @ ''use babel'' @ [CHR 0x27])
   \<and> \<not> shouldCompile []"
proof -
  show ?thesis
    using shouldCompile_exact [of "''/** @babel */'' @ ''import x''"]
      shouldCompile_exact [of "'' /** @babel */'' @ ''import x''"]
      shouldCompile_exact [of "''/** @Babel */''"]
      shouldCompile_exact [of "''x = 1; '' @ [CHR 0x27] @ ''use babel'' @ [CHR 0x27]"]
      shouldCompile_exact [of "[]"]
    by (simp add: PREFIXES_def)
qed

section \<open>Claims about the lookup\<close>

lemmas cached_defs = cached_world_def sample_cache_file_def sample_cache_dir_def

lemma existsSync_fault: "fault fsys (Stat p) = Some e \<Longrightarrow> \<not> existsSync fsys p"
  by (simp add: existsSync_def)

lemma loaded_babel_getCacheFilename:
  assumes "getCacheFilename pf this w src = (Inr p, this1)"
  shows "loaded_babel this1 = loaded_babel this"
  using getCacheFilename_Inr(2,3) [OF assms] by (simp add: loaded_babel_def split: option.splits)

lemma transformWithCache_miss_result:
  assumes gc: "getCacheFilename pf this w src = (Inr p, this1)"
      and miss: "\<not> existsSync (fs w) p"
  shows "fst (transformWithCache pf this w src filename)
           = map_sum BabelError id (loaded_babel this src (BABEL_OPTIONS pf))"
    and "babel_inputs (snd (snd (transformWithCache pf this w src filename))) = babel_inputs w @ [src]"
proof -
  obtain r this2 w2 where tr: "transform pf this1 w src filename = (r, this2, w2)"
    by (cases "transform pf this1 w src filename")
  from transform_result(1) [OF tr] loaded_babel_getCacheFilename [OF gc]
  have r: "r = map_sum BabelError id (loaded_babel this src (BABEL_OPTIONS pf))" by simp
  from transformWithCache_miss [OF gc miss, of filename] tr
  show "fst (transformWithCache pf this w src filename)
           = map_sum BabelError id (loaded_babel this src (BABEL_OPTIONS pf))"
    by (cases r) (simp_all add: r [symmetric])
  from transformWithCache_miss [OF gc miss, of filename] tr transform_frame(6) [OF tr]
  show "babel_inputs (snd (snd (transformWithCache pf this w src filename))) = babel_inputs w @ [src]"
    by (cases r) (simp_all add: cacheWriteAsync_frame)
qed

text \<open>
  C2, as the code has it. Once the cache file name is computed, a failure of the existence
  check, whatever its cause, reads as a miss: the source is handed to the engine and the
  call returns the engine's answer, so no lookup error reaches the caller. A failure of
  reading a cache file that exists is not absorbed: \<^verbatim>\<open>fs.readFileSync\<close> is called
  outside any handler, so the call throws that error; nothing is recomputed and the
  world is left as it was.
\<close>

theorem lookup_failures:
  assumes "getCacheFilename pf this w src = (Inr p, this1)"
  shows "(fault (fs w) (Stat p) = Some e \<longrightarrow>
            fst (transformWithCache pf this w src filename)
              = map_sum BabelError id (loaded_babel this src (BABEL_OPTIONS pf))
          \<and> babel_inputs (snd (snd (transformWithCache pf this w src filename)))
              = babel_inputs w @ [src])
       \<and> (existsSync (fs w) p \<and> readFileSync (fs w) p = Inl e \<longrightarrow>
            transformWithCache pf this w src filename = (Inl (FsError e), this1, w))"
  using transformWithCache_miss_result [OF assms existsSync_fault, of e filename]
    transformWithCache_unreadable [OF assms, of e filename]
  by blast

text \<open>
  C2 as stated fails where the cache file exists and cannot be read: the call throws the
  permission error and the engine is never asked.
\<close>

theorem unreadable_cache_file_raises:
  "existsSync (fs (cached_world [(Read sample_cache_file, EACCES)])) sample_cache_file
   \<and> fst (transformWithCache sample_platform sample_transpiler
            (cached_world [(Read sample_cache_file, EACCES)]) sample_src ''f.js'') = Inl (FsError EACCES)
   \<and> babel_inputs (snd (snd (transformWithCache sample_platform sample_transpiler
            (cached_world [(Read sample_cache_file, EACCES)]) sample_src ''f.js''))) = []"
  by (simp add: eval_defs sample_defs cached_defs)

lemma sample_cache_filename_Read:
  "fst (getCacheFilename sample_platform sample_transpiler (cached_world [(Read sample_cache_file, EACCES)]) sample_src)
     = Inr sample_cache_file"
  by (simp add: eval_defs sample_defs cached_defs)

lemma sample_cache_filename_Stat:
  "fst (getCacheFilename sample_platform sample_transpiler (cached_world [(Stat sample_cache_file, EACCES)]) sample_src)
     = Inr sample_cache_file"
  by (simp add: eval_defs sample_defs cached_defs)

theorem lookup_failures_witness:
  "fault (fs (cached_world [(Stat sample_cache_file, EACCES)])) (Stat sample_cache_file) = Some EACCES
   \<and> fst (transformWithCache sample_platform sample_transpiler
            (cached_world [(Stat sample_cache_file, EACCES)]) sample_src ''f.js'')
       = Inr ''compiled:/* @flow */ f()''
   \<and> babel_inputs (snd (snd (transformWithCache sample_platform sample_transpiler
            (cached_world [(Stat sample_cache_file, EACCES)]) sample_src ''f.js''))) = [sample_src]
   \<and> existsSync (fs (cached_world [(Read sample_cache_file, EACCES)])) sample_cache_file
   \<and> readFileSync (fs (cached_world [(Read sample_cache_file, EACCES)])) sample_cache_file = Inl EACCES
   \<and> fst (transformWithCache sample_platform sample_transpiler
            (cached_world [(Read sample_cache_file, EACCES)]) sample_src ''f.js'') = Inl (FsError EACCES)"
proof -
  let ?ws = "cached_world [(Stat sample_cache_file, EACCES)]" and ?wr = "cached_world [(Read sample_cache_file, EACCES)]"
  have gs: "getCacheFilename sample_platform sample_transpiler ?ws sample_src
      = (Inr sample_cache_file, snd (getCacheFilename sample_platform sample_transpiler ?ws sample_src))"
    using sample_cache_filename_Stat by (simp add: prod_eq_iff)
  have gr: "getCacheFilename sample_platform sample_transpiler ?wr sample_src
      = (Inr sample_cache_file, snd (getCacheFilename sample_platform sample_transpiler ?wr sample_src))"
    using sample_cache_filename_Read by (simp add: prod_eq_iff)
  have fs: "fault (fs ?ws) (Stat sample_cache_file) = Some EACCES"
    by (simp add: cached_defs sample_world_def)
  have ex: "existsSync (fs ?wr) sample_cache_file"
    by (simp add: existsSync_def cached_defs sample_world_def)
  have rd: "readFileSync (fs ?wr) sample_cache_file = Inl EACCES"
    by (simp add: readFileSync_def cached_defs sample_world_def)
  have eng: "loaded_babel sample_transpiler sample_src (BABEL_OPTIONS sample_platform)
      = Inr ''compiled:/* @flow */ f()''"
    by (simp add: loaded_babel_def sample_defs)
  have inp: "babel_inputs ?ws = []"
    by (simp add: cached_defs sample_world_def)
  from lookup_failures [OF gs, of EACCES "''f.js''"] lookup_failures [OF gr, of EACCES "''f.js''"]
    fs ex rd eng inp
  show ?thesis by simp
qed

section \<open>Claims about the write-back\<close>

lemma fold_upd_existing:
  "\<forall>q\<in>set qs. m q = Some v \<Longrightarrow> fold (\<lambda>q m. m(q \<mapsto> v)) qs m = m"
  by (induction qs) (simp_all add: fun_upd_idem)

lemma mkdirp_existing:
  assumes "fault fsys (Mkdirp p) = None"
      and "\<not> is_file fsys []"
      and "\<forall>q\<in>set (tl (prefixes p)). nodes fsys q = Some Dir"
  shows "mkdirp fsys p = Inr fsys"
proof -
  have "\<not> is_file fsys q" if "q \<in> set (prefixes p)" for q
  proof (cases "q = []")
    case True
    with assms(2) show ?thesis by simp
  next
    case False
    with that have "q \<in> set (tl (prefixes p))" by (cases p) auto
    with assms(3) show ?thesis by (simp add: is_file_def)
  qed
  then have "\<not> list_ex (is_file fsys) (prefixes p)" "\<not> is_file fsys p"
    by (auto simp: list_ex_iff)
  with assms(1) fold_upd_existing [of "tl (prefixes p)" "nodes fsys" Dir] assms(3)
  show ?thesis by (simp add: mkdirp_def)
qed

lemma writeFile_ok:
  assumes "fault fsys (WriteFile p) = None" and "p \<noteq> []" and "nodes fsys p \<noteq> Some Dir"
      and "is_dir fsys (path_dirname p)"
  shows "writeFile fsys p c = Inr (fsys\<lparr>nodes := (nodes fsys)(p \<mapsto> File c)\<rparr>)"
  using assms by (simp add: writeFile_def)

lemma rename_file_ok:
  assumes "fault fsys (Rename old new) = None" and "nodes fsys old = Some (File c)"
      and "new \<noteq> []" and "nodes fsys new \<noteq> Some Dir" and "is_dir fsys (path_dirname new)"
  shows "rename fsys old new = Inr (fsys\<lparr>nodes := (nodes fsys)(old := None, new \<mapsto> File c)\<rparr>)"
  using assms by (simp add: rename_def)

lemma unlink_ok:
  assumes "fault fsys (Unlink p) = None" and "nodes fsys p = Some (File c)"
  shows "unlink fsys p = Inr (fsys\<lparr>nodes := (nodes fsys)(p := None)\<rparr>)"
  using assms by (simp add: unlink_def)

lemma cached_world_simps:
  "fault (fs (cached_world denied)) = map_of denied"
  "console (cached_world denied) = []"
  "nodes (fs (cached_world denied)) sample_cache_file = Some (File ''cached'')"
  "nodes (fs (cached_world denied)) sample_cache_dir = Some Dir"
  "nodes (fs (cached_world denied)) (sample_cache_dir @ [''.u'']) = None"
  "nodes (fs (cached_world denied)) [] = None"
  "\<forall>q\<in>set (tl (prefixes sample_cache_dir)). nodes (fs (cached_world denied)) q = Some Dir"
  by (simp_all add: cached_world_def sample_world_def sample_cache_file_def sample_cache_dir_def
      sample_nodes_def)

lemma sample_writeback_scheduled: "pending (snd (snd sample_first)) = [sample_writeback]"
  by (simp add: sample_first_pending sample_writeback_def cached_defs)

lemma sample_writeback_simps:
  "wb_basedir sample_writeback = sample_cache_dir"
  "wb_tmpName sample_writeback = sample_cache_dir @ [''.u'']"
  "wb_filename sample_writeback = sample_cache_file"
  "wb_src sample_writeback = ''compiled:/* @flow */ f()''"
  "path_dirname (sample_cache_dir @ [n]) = sample_cache_dir"
  "path_dirname sample_cache_file = sample_cache_dir"
  "sample_cache_dir @ [''.u''] \<noteq> sample_cache_file"
  "sample_cache_file \<noteq> []"
  by (simp_all add: sample_writeback_def path_dirname_def sample_cache_file_def)

lemma cached_mkdirp:
  "map_of denied (Mkdirp sample_cache_dir) = None \<Longrightarrow>
   mkdirp (fs (cached_world denied)) sample_cache_dir = Inr (fs (cached_world denied))"
  by (rule mkdirp_existing) (simp_all add: cached_world_simps is_file_def)

lemma cached_writeFile:
  "map_of denied (WriteFile (sample_cache_dir @ [''.u''])) = None \<Longrightarrow>
   writeFile (fs (cached_world denied)) (sample_cache_dir @ [''.u'']) c
     = Inr ((fs (cached_world denied))
              \<lparr>nodes := (nodes (fs (cached_world denied)))(sample_cache_dir @ [''.u''] \<mapsto> File c)\<rparr>)"
  by (rule writeFile_ok) (simp_all add: cached_world_simps sample_writeback_simps is_dir_def)

text \<open>
  C3 as stated fails at the cleanup: with the rename refused and the unlink failing with an
  I/O error, the console shows the error of the rename and nothing else, and the temporary
  file is still there.
\<close>

theorem cleanup_failure_not_logged:
  "console (run_writeback sample_writeback
      (cached_world [(Rename (wb_tmpName sample_writeback) sample_cache_file, EACCES),
                     (Unlink (wb_tmpName sample_writeback), EIO)]))
     = [Transpiler_error EACCES]
   \<and> unlink (fs (run_writeback sample_writeback
      (cached_world [(Rename (wb_tmpName sample_writeback) sample_cache_file, EACCES),
                     (Unlink (wb_tmpName sample_writeback), EIO)]))) (wb_tmpName sample_writeback)
     = Inl EIO
   \<and> nodes (fs (run_writeback sample_writeback
      (cached_world [(Rename (wb_tmpName sample_writeback) sample_cache_file, EACCES),
                     (Unlink (wb_tmpName sample_writeback), EIO)]))) (wb_tmpName sample_writeback)
     = Some (File ''compiled:/* @flow */ f()'')"
  by (simp add: run_writeback_def sample_writeback_simps cached_mkdirp cached_writeFile
      rename_def unlink_def cached_world_simps)

lemma sample_writeback_last:
  "sample_writeback = last (pending (cacheWriteAsync sample_platform sample_cache_file
      ''compiled:/* @flow */ f()'' (cached_world denied)))"
  by (simp add: cacheWriteAsync_frame sample_writeback_def sample_writeback_simps
      cached_world_def sample_world_def sample_platform_def)

section \<open>Claims about the configuration digest\<close>

lemma update_files_same_bytes:
  "map (readFileSync a) fa = map (readFileSync b) fb \<Longrightarrow>
   update_files a fa h = update_files b fb h"
proof (induction fa arbitrary: fb h)
  case Nil
  then show ?case by simp
next
  case (Cons f fa)
  then obtain g fb' where fb: "fb = g # fb'" "readFileSync a f = readFileSync b g"
    "map (readFileSync a) fa = map (readFileSync b) fb'"
    by (cases fb) auto
  with Cons.IH [of fb'] show ?case
    by (simp split: sum.splits)
qed

lemma getConfigDigest_fresh:
  assumes "falsy (configDigest this)"
      and "map (readFileSync (fs w)) (logic_units pf) = map Inr cs"
  shows "getConfigDigest pf this w =
           (Inr (digest_hex (sha1 pf
              (hash_input (babelVersion this) (JSON_stringify pf (BABEL_OPTIONS pf)) cs))),
            this\<lparr>configDigest := Some (digest_hex (sha1 pf
              (hash_input (babelVersion this) (JSON_stringify pf (BABEL_OPTIONS pf)) cs)))\<rparr>)"
proof -
  have "update_files (fs w) (logic_units pf) (config_header pf (babelVersion this))
      = Inr (config_header pf (babelVersion this) @ terminated cs)"
    using assms(2) by (simp add: update_files_Inr_iff)
  with assms(1) show ?thesis
    by (simp add: getConfigDigest_def hash_input_def config_header_def Let_def)
qed

text \<open>
  C4 (determinism and memoization). A call of \<^verbatim>\<open>getConfigDigest\<close> that returned a
  digest has stored it: the next call on the same object returns the same digest without
  looking at any file, whatever the files hold by then. Two objects that have not computed
  their digest yet, with the same babel version, the same serialised options, the same hash
  function and the same bytes in their hashed files in the same order, return the same
  result, even on different platforms and file systems.
\<close>

theorem getConfigDigest_deterministic:
  "(getConfigDigest pf this w = (Inr d, this') \<longrightarrow>
      getConfigDigest pf this' w' = (Inr d, this'))
   \<and> (falsy (configDigest this) \<and> falsy (configDigest other)
        \<and> babelVersion other = babelVersion this
        \<and> sha1 pf2 = sha1 pf
        \<and> JSON_stringify pf2 (BABEL_OPTIONS pf2) = JSON_stringify pf (BABEL_OPTIONS pf)
        \<and> map (readFileSync (fs w2)) (logic_units pf2) = map (readFileSync (fs w)) (logic_units pf)
      \<longrightarrow> fst (getConfigDigest pf2 other w2) = fst (getConfigDigest pf this w))"
proof -
  have memo: "getConfigDigest pf this' w' = (Inr d, this')"
    if "getConfigDigest pf this w = (Inr d, this')"
    using getConfigDigest_memoized [OF that] by (simp add: getConfigDigest_again)
  have fresh: "fst (getConfigDigest pf2 other w2) = fst (getConfigDigest pf this w)"
    if "falsy (configDigest this)" "falsy (configDigest other)"
      "babelVersion other = babelVersion this" "sha1 pf2 = sha1 pf"
      "JSON_stringify pf2 (BABEL_OPTIONS pf2) = JSON_stringify pf (BABEL_OPTIONS pf)"
      "map (readFileSync (fs w2)) (logic_units pf2) = map (readFileSync (fs w)) (logic_units pf)"
  proof -
    have "config_header pf2 (babelVersion other) = config_header pf (babelVersion this)"
      using that(3,5) by (simp add: config_header_def)
    with update_files_same_bytes [OF that(6)]
    have "update_files (fs w2) (logic_units pf2) (config_header pf2 (babelVersion other))
        = update_files (fs w) (logic_units pf) (config_header pf (babelVersion this))"
      by simp
    with that(1,2,4) show ?thesis
      by (simp add: getConfigDigest_def Let_def split: sum.splits)
  qed
  from memo fresh show ?thesis by blast
qed

lemma sample_units:
  "logic_units sample_platform =
     [[''lib'', ''NodeTranspiler.js''], [''lib'', ''remove-use-babel-tr.js''],
      [''lib'', ''inline-imports-tr.js'']]"
  by (simp add: logic_units_def BABEL_OPTIONS_def sample_platform_def)

lemma sample_reads:
  "map (readFileSync (fs sample_world)) (logic_units sample_platform) = map Inr [''T'', ''R'', ''I'']"
  "map (readFileSync (fs (cached_world []))) (logic_units sample_platform) = map Inr [''T'', ''R'', ''I'']"
  "map (readFileSync (fs (plugin_world r i))) (logic_units sample_platform) = map Inr [''T'', r, i]"
  by (simp_all add: sample_units readFileSync_def sample_world_def sample_nodes_def
      cached_world_def plugin_world_def sample_cache_dir_def sample_cache_file_def)

lemma sample_transpiler_simps:
  "configDigest sample_transpiler = None" "babelVersion sample_transpiler = ''5.8.38''"
  "cacheDir sample_transpiler = None"
  "configDigest (NodeTranspiler sample_platform ''5.8.38'' g) = None"
  "babelVersion (NodeTranspiler sample_platform ''5.8.38'' g) = ''5.8.38''"
  by (simp_all add: sample_transpiler_def NodeTranspiler_def sample_platform_def)

lemma sample_hash_input:
  "sha1 sample_platform (hash_input ''5.8.38''
      (JSON_stringify sample_platform (BABEL_OPTIONS sample_platform)) [''T'', ''R'', ''I'']) = 26"
  by (simp add: sample_platform_def hash_input_def terminated_def)

lemma sample_getConfigDigest:
  "getConfigDigest sample_platform sample_transpiler sample_world
     = (Inr ''000000000000000000000000000000000000001a'',
        sample_transpiler\<lparr>configDigest := Some ''000000000000000000000000000000000000001a''\<rparr>)"
  using getConfigDigest_fresh [of sample_transpiler sample_world sample_platform, OF _ sample_reads(1)]
  by (simp add: sample_transpiler_simps falsy_def sample_hash_input digest_hex_26)

theorem getConfigDigest_deterministic_witness:
  "fst (getConfigDigest sample_platform sample_transpiler sample_world)
     = Inr ''000000000000000000000000000000000000001a''
   \<and> fst (getConfigDigest sample_platform
        (snd (getConfigDigest sample_platform sample_transpiler sample_world))
        (cached_world [(Read [''lib'', ''NodeTranspiler.js''], EACCES)]))
     = Inr ''000000000000000000000000000000000000001a''
   \<and> fst (getConfigDigest sample_platform
        (NodeTranspiler sample_platform ''5.8.38'' (\<lambda>u. sample_babel)) (cached_world []))
     = Inr ''000000000000000000000000000000000000001a''"
proof -
  let ?d = "''000000000000000000000000000000000000001a''"
  let ?this' = "sample_transpiler\<lparr>configDigest := Some ?d\<rparr>"
  let ?other = "NodeTranspiler sample_platform ''5.8.38'' (\<lambda>u. sample_babel)"
  note inst = getConfigDigest_deterministic [of sample_platform sample_transpiler sample_world ?d ?this'
      "cached_world [(Read [''lib'', ''NodeTranspiler.js''], EACCES)]"
      ?other sample_platform "cached_world []"]
  have "falsy (configDigest sample_transpiler)" "falsy (configDigest ?other)"
    "babelVersion ?other = babelVersion sample_transpiler"
    by (simp_all add: falsy_def sample_transpiler_simps)
  with inst sample_getConfigDigest sample_reads(1,2)
  show ?thesis by simp
qed

text \<open>
  C9 (a hashed file cannot be read). The files hashed into the digest are the module's own
  source and the plugin sources, those with a non-empty path. If the digest is not stored
  yet and reading one of these files fails, \<^verbatim>\<open>getConfigDigest\<close> throws the read error of
  such a file, returns no digest, and leaves the object as it was: nothing is stored.
\<close>

theorem getConfigDigest_read_failure:
  assumes "falsy (configDigest this)"
      and "f \<in> set (logic_units pf)"
      and "readFileSync (fs w) f = Inl e'"
  shows "set (logic_units pf)
           = {g \<in> insert (module_filename pf) (set (plugins (BABEL_OPTIONS pf))). g \<noteq> []}
       \<and> (\<exists>e. getConfigDigest pf this w = (Inl (FsError e), this)
              \<and> (\<exists>g\<in>set (logic_units pf). readFileSync (fs w) g = Inl e))
       \<and> falsy (configDigest (snd (getConfigDigest pf this w)))"
proof -
  have units: "set (logic_units pf)
      = {g \<in> insert (module_filename pf) (set (plugins (BABEL_OPTIONS pf))). g \<noteq> []}"
    by (auto simp: logic_units_def)
  from update_files_fails [OF assms(2,3)]
  obtain e where e: "update_files (fs w) (logic_units pf) (config_header pf (babelVersion this)) = Inl e"
    by blast
  from update_files_Inl [OF e]
  have "\<exists>g\<in>set (logic_units pf). readFileSync (fs w) g = Inl e" .
  moreover from e assms(1) have "getConfigDigest pf this w = (Inl (FsError e), this)"
    by (simp add: getConfigDigest_def)
  ultimately show ?thesis
    using units assms(1) by auto
qed

theorem getConfigDigest_read_failure_witness:
  "falsy (configDigest sample_transpiler)
   \<and> [''lib'', ''inline-imports-tr.js''] \<in> set (logic_units sample_platform)
   \<and> readFileSync (fs (cached_world [(Read [''lib'', ''inline-imports-tr.js''], EIO)]))
        [''lib'', ''inline-imports-tr.js''] = Inl EIO
   \<and> getConfigDigest sample_platform sample_transpiler
        (cached_world [(Read [''lib'', ''inline-imports-tr.js''], EIO)])
       = (Inl (FsError EIO), sample_transpiler)"
proof -
  let ?w = "cached_world [(Read [''lib'', ''inline-imports-tr.js''], EIO)]"
  have h1: "falsy (configDigest sample_transpiler)"
    by (simp add: falsy_def sample_transpiler_simps)
  have h2: "[''lib'', ''inline-imports-tr.js''] \<in> set (logic_units sample_platform)"
    by (simp add: sample_units)
  have h3: "readFileSync (fs ?w) [''lib'', ''inline-imports-tr.js''] = Inl EIO"
    by (simp add: readFileSync_fault cached_world_simps)
  have reads: "readFileSync (fs ?w) [''lib'', ''NodeTranspiler.js''] = Inr ''T''"
    "readFileSync (fs ?w) [''lib'', ''remove-use-babel-tr.js''] = Inr ''R''"
    by (simp_all add: readFileSync_def cached_world_def sample_world_def sample_nodes_def
        sample_cache_dir_def sample_cache_file_def)
  from getConfigDigest_read_failure [OF h1 h2 h3]
  have "getConfigDigest sample_platform sample_transpiler ?w = (Inl (FsError EIO), sample_transpiler)"
    by (auto simp: sample_units reads h3)
  with h1 h2 h3 show ?thesis by simp
qed

lemma terminated_append: "terminated (xs @ ys) = terminated xs @ terminated ys"
  by (simp add: terminated_def)

lemma first_separator:
  assumes "x \<notin> set xs" and "x \<notin> set xs'" and "xs @ x # ys = xs' @ x # ys'"
  shows "xs = xs' \<and> ys = ys'"
  using assms
proof (induction xs arbitrary: xs')
  case Nil
  then show ?case by (cases xs') auto
next
  case (Cons a xs)
  then show ?case by (cases xs') auto
qed

lemma terminated_inj:
  assumes "\<forall>c\<in>set cs1 \<union> set cs2. NUL \<notin> set c" and "terminated cs1 = terminated cs2"
  shows "cs1 = cs2"
  using assms
proof (induction cs1 arbitrary: cs2)
  case Nil
  then show ?case by (cases cs2) (simp_all add: terminated_def)
next
  case (Cons c cs1)
  show ?case
  proof (cases cs2)
    case Nil
    with Cons.prems(2) show ?thesis by (simp add: terminated_def)
  next
    case (Cons c' cs2')
    with Cons.prems have nul: "NUL \<notin> set c" "NUL \<notin> set c'"
      and eq: "c @ NUL # terminated cs1 = c' @ NUL # terminated cs2'"
      by (simp_all add: terminated_Cons)
    from first_separator [OF nul eq]
    have "c = c' \<and> terminated cs1 = terminated cs2'" .
    with Cons.IH [of cs2'] Cons.prems(1) Cons show ?thesis by simp
  qed
qed

lemma hash_input_inj:
  "v \<noteq> v' \<Longrightarrow> hash_input v j cs \<noteq> hash_input v' j cs"
  "j \<noteq> j' \<Longrightarrow> hash_input v j cs \<noteq> hash_input v j' cs"
  "c \<noteq> c' \<Longrightarrow> hash_input v j (pre @ c # post) \<noteq> hash_input v j (pre @ c' # post)"
  "\<forall>c\<in>set cs1 \<union> set cs2. NUL \<notin> set c \<Longrightarrow> cs1 \<noteq> cs2 \<Longrightarrow> hash_input v j cs1 \<noteq> hash_input v j cs2"
proof -
  show "v \<noteq> v' \<Longrightarrow> hash_input v j cs \<noteq> hash_input v' j cs"
    by (simp add: hash_input_def)
  show "j \<noteq> j' \<Longrightarrow> hash_input v j cs \<noteq> hash_input v j' cs"
    by (simp add: hash_input_def)
  show "c \<noteq> c' \<Longrightarrow> hash_input v j (pre @ c # post) \<noteq> hash_input v j (pre @ c' # post)"
    by (simp add: hash_input_def terminated_append terminated_Cons)
  show "\<forall>c\<in>set cs1 \<union> set cs2. NUL \<notin> set c \<Longrightarrow> cs1 \<noteq> cs2 \<Longrightarrow> hash_input v j cs1 \<noteq> hash_input v j cs2"
    using terminated_inj [of cs1 cs2] by (auto simp: hash_input_def)
qed

text \<open>
  C5, as the code has it. The digest that \<^verbatim>\<open>getConfigDigest\<close> computes is the
  hexadecimal form of the SHA-1 of \<open>hash_input\<close>: the constant \<open>babel-core\<close>, the version
  and each hashed file's bytes are each followed by a null byte, the serialised options are
  not. Two digests are equal exactly when the two SHA-1 values are. The bytes fed to the
  hash change when the version alone changes, when the serialised options alone change,
  when the bytes of one hashed file change, and when the list of file contents changes in
  any way as long as no file contains a null byte; so in each of these cases the digest
  changes unless SHA-1 collides on the two inputs.
\<close>

theorem fingerprint_sensitivity:
  assumes "falsy (configDigest this)"
      and "map (readFileSync (fs w)) (logic_units pf) = map Inr cs"
  shows "fst (getConfigDigest pf this w)
           = Inr (digest_hex (sha1 pf
               (hash_input (babelVersion this) (JSON_stringify pf (BABEL_OPTIONS pf)) cs)))
       \<and> (digest_hex (sha1 pf s1) = digest_hex (sha1 pf s2) \<longleftrightarrow> sha1 pf s1 = sha1 pf s2)
       \<and> (v \<noteq> v' \<longrightarrow> hash_input v j cs \<noteq> hash_input v' j cs)
       \<and> (j \<noteq> j' \<longrightarrow> hash_input v j cs \<noteq> hash_input v j' cs)
       \<and> (c \<noteq> c' \<longrightarrow> hash_input v j (pre @ c # post) \<noteq> hash_input v j (pre @ c' # post))
       \<and> ((\<forall>c\<in>set cs1 \<union> set cs2. NUL \<notin> set c) \<and> cs1 \<noteq> cs2 \<longrightarrow>
            hash_input v j cs1 \<noteq> hash_input v j cs2)"
proof -
  have "digest_hex (sha1 pf s1) = digest_hex (sha1 pf s2) \<longleftrightarrow> sha1 pf s1 = sha1 pf s2"
    by (auto dest: digest_hex_inj)
  then show ?thesis
    using getConfigDigest_fresh [OF assms]
      hash_input_inj(1) [of v v' j cs] hash_input_inj(2) [of j j' v cs]
      hash_input_inj(3) [of c c' v j pre post] hash_input_inj(4) [of cs1 cs2 v j]
    by simp
qed

text \<open>
  C5 as stated fails for contents that contain the separator: with the plugin files holding
  \<open>a\<close>, null, \<open>b\<close> and \<open>c\<close>, or holding \<open>a\<close> and \<open>b\<close>, null, \<open>c\<close>, the hash is fed
  the same bytes, so the digest is the same whatever the hash function is.
\<close>

theorem null_bytes_collide:
  "readFileSync (fs (plugin_world (''a'' @ [NUL] @ ''b'') ''c'')) [''lib'', ''remove-use-babel-tr.js'']
     \<noteq> readFileSync (fs (plugin_world ''a'' (''b'' @ [NUL] @ ''c''))) [''lib'', ''remove-use-babel-tr.js'']
   \<and> update_files (fs (plugin_world (''a'' @ [NUL] @ ''b'') ''c'')) (logic_units sample_platform)
        (config_header sample_platform (babelVersion sample_transpiler))
     = update_files (fs (plugin_world ''a'' (''b'' @ [NUL] @ ''c''))) (logic_units sample_platform)
        (config_header sample_platform (babelVersion sample_transpiler))
   \<and> getConfigDigest sample_platform sample_transpiler (plugin_world (''a'' @ [NUL] @ ''b'') ''c'')
     = getConfigDigest sample_platform sample_transpiler (plugin_world ''a'' (''b'' @ [NUL] @ ''c''))"
proof -
  let ?wa = "plugin_world (''a'' @ [NUL] @ ''b'') ''c''" and ?wb = "plugin_world ''a'' (''b'' @ [NUL] @ ''c'')"
  have rd: "readFileSync (fs ?wa) [''lib'', ''remove-use-babel-tr.js'']
      \<noteq> readFileSync (fs ?wb) [''lib'', ''remove-use-babel-tr.js'']"
    by (simp add: readFileSync_def plugin_world_def sample_world_def)
  have up: "update_files (fs ?wa) (logic_units sample_platform) h
      = update_files (fs ?wb) (logic_units sample_platform) h" for h
    by (simp add: sample_units readFileSync_def plugin_world_def sample_world_def sample_nodes_def)
  from rd up show ?thesis
    by (simp add: getConfigDigest_def)
qed

theorem fingerprint_sensitivity_witness:
  "falsy (configDigest sample_transpiler)
   \<and> map (readFileSync (fs (plugin_world ''ab'' ''c''))) (logic_units sample_platform)
       = map Inr [''T'', ''ab'', ''c'']
   \<and> fst (getConfigDigest sample_platform sample_transpiler (plugin_world ''ab'' ''c''))
       = Inr (digest_hex (sha1 sample_platform (hash_input ''5.8.38'' ''{}'' [''T'', ''ab'', ''c''])))
   \<and> hash_input ''5.8.38'' ''{}'' [''T'', ''ab'', ''c''] \<noteq> hash_input ''5.8.38'' ''{}'' [''T'', ''a'', ''bc'']
   \<and> hash_input ''5.8.38'' ''{}'' [''T'', ''ab'', ''c''] \<noteq> hash_input ''5.8.39'' ''{}'' [''T'', ''ab'', ''c'']
   \<and> hash_input ''5.8.38'' ''{}'' [''T'', ''ab'', ''c''] \<noteq> hash_input ''5.8.38'' ''{ }'' [''T'', ''ab'', ''c'']
   \<and> hash_input ''5.8.38'' ''{}'' [''T'', ''ab'', ''c''] \<noteq> hash_input ''5.8.38'' ''{}'' [''T'', ''ab'', ''d'']"
proof -
  have h1: "falsy (configDigest sample_transpiler)"
    by (simp add: falsy_def sample_transpiler_simps)
  note inst = fingerprint_sensitivity [OF h1 sample_reads(3) [of "''ab''" "''c''"],
      of _ _ "''5.8.38''" "''5.8.39''" "''{}''" "''{ }''" "''c''" "''d''" "[''T'', ''ab'']" "[]"
         "[''T'', ''ab'', ''c'']" "[''T'', ''a'', ''bc'']"]
  have json: "JSON_stringify sample_platform (BABEL_OPTIONS sample_platform) = ''{}''"
    by (simp add: sample_platform_def)
  have nul: "\<forall>c\<in>set [''T'', ''ab'', ''c''] \<union> set [''T'', ''a'', ''bc'']. NUL \<notin> set c"
    by (simp add: NUL_def)
  from inst nul h1 sample_reads(3) [of "''ab''" "''c''"] show ?thesis
    by (simp add: json sample_transpiler_simps)
qed

section \<open>Claims about the engine\<close>

text \<open>
  C6, as the code has it. When babel rejects the input, \<^verbatim>\<open>transform\<close> prints the line
  \<^verbatim>\<open>Error transpiling "filename"\<close> on the console and throws again the very error that
  babel threw: the exception is the engine's diagnostic whatever the file name is, and the
  file name is on the console only. The exception is not swallowed: it leaves
  \<^verbatim>\<open>transform\<close>, and on a cache miss it leaves \<^verbatim>\<open>transformWithCache\<close> too.
\<close>

theorem engine_error_rethrown:
  assumes "loaded_babel this src (BABEL_OPTIONS pf) = Inl err"
  shows "fst (transform pf this w src filename) = Inl (BabelError err)
       \<and> fst (transform pf this w src filename') = fst (transform pf this w src filename)
       \<and> console (snd (snd (transform pf this w src filename)))
           = console w @ [Error_transpiling filename]
       \<and> (getCacheFilename pf this w src = (Inr p, this1) \<and> \<not> existsSync (fs w) p \<longrightarrow>
            fst (transformWithCache pf this w src filename) = Inl (BabelError err))"
proof -
  have "transform pf this w src f = (Inl (BabelError err), this\<lparr>babel := Some (loaded_babel this)\<rparr>,
      w\<lparr>babel_inputs := babel_inputs w @ [src], console := console w @ [Error_transpiling f]\<rparr>)" for f
    using assms by (simp add: transform_def Let_def)
  then show ?thesis
    using transformWithCache_miss_result(1) [of pf this w src p this1 filename] assms
    by simp
qed

text \<open>
  C6 as stated fails on what the exception carries: for two different file names the thrown
  value is the same diagnostic of the engine; the name appears on the console only.
\<close>

theorem thrown_error_has_no_filename:
  "fst (transform sample_platform sample_transpiler sample_world ''#'' ''a.js'')
     = Inl (BabelError ''SyntaxError'')
   \<and> fst (transform sample_platform sample_transpiler sample_world ''#'' ''b.js'')
     = Inl (BabelError ''SyntaxError'')
   \<and> console (snd (snd (transform sample_platform sample_transpiler sample_world ''#'' ''a.js'')))
     = [Error_transpiling ''a.js'']"
  by (simp add: transform_def loaded_babel_def Let_def sample_defs)

lemma digest_hex_1: "digest_hex (1 :: 160 word) = ''0000000000000000000000000000000000000001''"
  by code_simp

lemma sample_rejected_filename:
  "fst (getCacheFilename sample_platform sample_transpiler sample_world ''#'')
     = Inr (sample_cache_dir @ [''0000000000000000000000000000000000000001.js''])"
  by (simp add: eval_defs sample_defs sample_cache_dir_def digest_hex_1)

lemma sample_rejected_miss:
  "\<not> existsSync (fs sample_world) (sample_cache_dir @ [''0000000000000000000000000000000000000001.js''])"
  by (simp add: existsSync_def sample_world_def sample_nodes_def sample_cache_dir_def)

lemma sample_engine:
  "loaded_babel sample_transpiler ''#'' (BABEL_OPTIONS sample_platform) = Inl ''SyntaxError''"
  "loaded_babel sample_transpiler sample_src (BABEL_OPTIONS sample_platform)
     = Inr ''compiled:/* @flow */ f()''"
  by (simp_all add: loaded_babel_def sample_defs)

theorem engine_error_rethrown_witness:
  "loaded_babel sample_transpiler ''#'' (BABEL_OPTIONS sample_platform) = Inl ''SyntaxError''
   \<and> \<not> existsSync (fs sample_world) (sample_cache_dir @ [''0000000000000000000000000000000000000001.js''])
   \<and> fst (transform sample_platform sample_transpiler sample_world ''#'' ''a.js'')
       = Inl (BabelError ''SyntaxError'')
   \<and> console (snd (snd (transform sample_platform sample_transpiler sample_world ''#'' ''a.js'')))
       = [Error_transpiling ''a.js'']
   \<and> fst (transformWithCache sample_platform sample_transpiler sample_world ''#'' ''a.js'')
       = Inl (BabelError ''SyntaxError'')"
proof -
  let ?p = "sample_cache_dir @ [''0000000000000000000000000000000000000001.js'']"
  have gc: "getCacheFilename sample_platform sample_transpiler sample_world ''#''
      = (Inr ?p, snd (getCacheFilename sample_platform sample_transpiler sample_world ''#''))"
    using sample_rejected_filename by (simp add: prod_eq_iff)
  have "console sample_world = []" by (simp add: sample_world_def)
  with engine_error_rethrown [OF sample_engine(1), of sample_world "''a.js''" "''a.js''" ?p]
    gc sample_rejected_miss sample_engine(1)
  show ?thesis by simp
qed

text \<open>
  C10 (a rejected source leaves the cache alone). On a cache miss where babel rejects the
  input, \<^verbatim>\<open>transformWithCache\<close> throws babel's error, and \<^verbatim>\<open>cacheWriteAsync\<close> was not
  called: no write-back is pending that was not pending before, no uuid was drawn for a
  temporary name, and the file system is as it was, so neither a temporary file nor a
  cache directory was created.
\<close>

theorem engine_failure_leaves_cache:
  assumes "getCacheFilename pf this w src = (Inr p, this1)"
      and "\<not> existsSync (fs w) p"
      and "loaded_babel this src (BABEL_OPTIONS pf) = Inl err"
  shows "fst (transformWithCache pf this w src filename) = Inl (BabelError err)
       \<and> pending (snd (snd (transformWithCache pf this w src filename))) = pending w
       \<and> uuids_drawn (snd (snd (transformWithCache pf this w src filename))) = uuids_drawn w
       \<and> fs (snd (snd (transformWithCache pf this w src filename))) = fs w"
proof -
  obtain r this2 w2 where tr: "transform pf this1 w src filename = (r, this2, w2)"
    by (cases "transform pf this1 w src filename")
  from transform_result(1) [OF tr] loaded_babel_getCacheFilename [OF assms(1)] assms(3)
  have r: "r = Inl (BabelError err)" by simp
  from transformWithCache_miss [OF assms(1,2), of filename] tr r
  have "transformWithCache pf this w src filename = (Inl (BabelError err), this2, w2)"
    by simp
  with transform_frame(1,2,3) [OF tr] show ?thesis by simp
qed

theorem engine_failure_leaves_cache_witness:
  "\<not> existsSync (fs sample_world) (sample_cache_dir @ [''0000000000000000000000000000000000000001.js''])
   \<and> loaded_babel sample_transpiler ''#'' (BABEL_OPTIONS sample_platform) = Inl ''SyntaxError''
   \<and> fst (transformWithCache sample_platform sample_transpiler sample_world ''#'' ''a.js'')
       = Inl (BabelError ''SyntaxError'')
   \<and> pending (snd (snd (transformWithCache sample_platform sample_transpiler sample_world ''#'' ''a.js''))) = []
   \<and> uuids_drawn (snd (snd (transformWithCache sample_platform sample_transpiler sample_world ''#'' ''a.js''))) = 0
   \<and> nodes (fs (snd (snd (transformWithCache sample_platform sample_transpiler sample_world ''#'' ''a.js''))))
       = sample_nodes"
proof -
  let ?p = "sample_cache_dir @ [''0000000000000000000000000000000000000001.js'']"
  have gc: "getCacheFilename sample_platform sample_transpiler sample_world ''#''
      = (Inr ?p, snd (getCacheFilename sample_platform sample_transpiler sample_world ''#''))"
    using sample_rejected_filename by (simp add: prod_eq_iff)
  have "pending sample_world = []" "uuids_drawn sample_world = 0" "nodes (fs sample_world) = sample_nodes"
    by (simp_all add: sample_world_def)
  with engine_failure_leaves_cache [OF gc sample_rejected_miss sample_engine(1), of "''a.js''"]
    sample_rejected_miss sample_engine(1)
  show ?thesis by simp
qed

section \<open>Claims about an unwritable cache\<close>

text \<open>
  C8 (miss fallback transparency). On a cache miss where babel accepts the source,
  \<^verbatim>\<open>transformWithCache\<close> returns exactly babel's output. If every creation of a directory
  and every write of a file under the cache directory fails, the write-back that the call
  started ends at \<^verbatim>\<open>mkdirp\<close>: the error is printed on the console, the file system stays
  as it was, and nothing is thrown to the caller, who already holds the output.
\<close>

theorem unwritable_cache_transparent:
  assumes gc: "getCacheFilename pf this w src = (Inr p, this1)"
      and miss: "\<not> existsSync (fs w) p"
      and engine: "loaded_babel this src (BABEL_OPTIONS pf) = Inr out"
      and idle: "pending w = []"
      and ro: "unwritable (fs w) (path_dirname p)"
  shows "fst (transformWithCache pf this w src filename) = Inr out
       \<and> fs (run_pending (snd (snd (transformWithCache pf this w src filename)))) = fs w
       \<and> (\<exists>e. fault (fs w) (Mkdirp (path_dirname p)) = Some e
              \<and> console (run_pending (snd (snd (transformWithCache pf this w src filename))))
                  = console w @ [Transpiler_error e])"
proof -
  obtain r this2 w2 where tr: "transform pf this1 w src filename = (r, this2, w2)"
    by (cases "transform pf this1 w src filename")
  from transform_result [OF tr] loaded_babel_getCacheFilename [OF gc] engine
  have r: "r = Inr out" and con: "console w2 = console w" by simp_all
  let ?w1 = "cacheWriteAsync pf p out w2"
  from transformWithCache_miss [OF gc miss, of filename] tr r
  have res: "transformWithCache pf this w src filename = (Inr out, this2, ?w1)"
    by simp
  let ?wb = "\<lparr> wb_basedir = path_dirname p,
      wb_tmpName = path_dirname p @ [''.'' @ uuid_v4 pf (uuids_drawn w2)],
      wb_filename = p, wb_src = out \<rparr>"
  have "pending ?w1 = [?wb]"
    using transform_frame(2) [OF tr] idle by (simp add: cacheWriteAsync_frame)
  then have run: "run_pending ?w1 = run_writeback ?wb (?w1\<lparr>pending := []\<rparr>)"
    by (rule run_pending_single)
  from ro obtain e where e: "fault (fs w) (Mkdirp (path_dirname p)) = Some e"
    by (auto simp: unwritable_def)
  have fsw: "fs (?w1\<lparr>pending := []\<rparr>) = fs w"
    using transform_frame(1) [OF tr] by (simp add: cacheWriteAsync_frame)
  then have "mkdirp (fs (?w1\<lparr>pending := []\<rparr>)) (path_dirname p) = Inl e"
    using e by (simp add: mkdirp_fault)
  then have "run_pending ?w1
      = (?w1\<lparr>pending := []\<rparr>)\<lparr>console := console (?w1\<lparr>pending := []\<rparr>) @ [Transpiler_error e]\<rparr>"
    by (simp add: run run_writeback_def)
  then have "fs (run_pending ?w1) = fs w" "console (run_pending ?w1) = console w @ [Transpiler_error e]"
    using fsw con by (simp_all add: cacheWriteAsync_frame)
  with res e show ?thesis by simp
qed

lemma readonly_filename:
  "fst (getCacheFilename sample_platform sample_transpiler readonly_world sample_src)
     = Inr sample_cache_file"
  by (simp add: eval_defs sample_defs readonly_world_def cached_defs)

theorem unwritable_cache_transparent_witness:
  "unwritable (fs readonly_world) (path_dirname sample_cache_file)
   \<and> \<not> existsSync (fs readonly_world) sample_cache_file
   \<and> pending readonly_world = []
   \<and> fst (transformWithCache sample_platform sample_transpiler readonly_world sample_src ''f.js'')
       = Inr ''compiled:/* @flow */ f()''
   \<and> nodes (fs (run_pending (snd (snd
         (transformWithCache sample_platform sample_transpiler readonly_world sample_src ''f.js'')))))
       = sample_nodes
   \<and> console (run_pending (snd (snd
         (transformWithCache sample_platform sample_transpiler readonly_world sample_src ''f.js''))))
       = [Transpiler_error EACCES]"
proof -
  have gc: "getCacheFilename sample_platform sample_transpiler readonly_world sample_src
      = (Inr sample_cache_file,
         snd (getCacheFilename sample_platform sample_transpiler readonly_world sample_src))"
    using readonly_filename by (simp add: prod_eq_iff)
  have miss: "\<not> existsSync (fs readonly_world) sample_cache_file"
    by (simp add: existsSync_def readonly_world_def sample_world_def sample_nodes_def cached_defs)
  have idle: "pending readonly_world = []"
    by (simp add: readonly_world_def sample_world_def)
  have ro: "unwritable (fs readonly_world) (path_dirname sample_cache_file)"
    by (simp add: unwritable_def readonly_world_def sample_world_def)
  have more: "console readonly_world = []" "nodes (fs readonly_world) = sample_nodes"
    "fault (fs readonly_world) (Mkdirp q) = Some EACCES" for q
    by (simp_all add: readonly_world_def sample_world_def)
  from unwritable_cache_transparent [OF gc miss sample_engine(2) idle ro, of "''f.js''"]
    miss idle ro more
  show ?thesis by auto
qed

section \<open>Claims about the round trip\<close>

lemma settle_0: "settle 0 w = run_pending w"
  by (simp add: settle_def run_pending_def)

lemma settle_none: "settle (length (pending w)) w = w"
  by (simp add: settle_def)

lemma settle_last:
  "pending w = older @ [wb] \<Longrightarrow>
   settle (length older) w = run_writeback wb (w\<lparr>pending := older\<rparr>)"
  by (simp add: settle_def)

text \<open>
  After a call that returned and whose write-back has completed without a failure, the
  cache file exists and holds the returned bytes, and the object knows its cache directory.
\<close>

lemma settled_entry:
  assumes first: "transformWithCache pf this w src filename = (Inr out, this1, w1)"
      and written: "console (settle (length (pending w)) w1) = console w1"
      and p: "fst (getCacheFilename pf this w src) = Inr p"
  shows "nodes (fs (settle (length (pending w)) w1)) p = Some (File out)"
    and "fault (fs (settle (length (pending w)) w1)) = fault (fs w)"
    and "babel_inputs (settle (length (pending w)) w1) = babel_inputs w1"
    and "p \<noteq> []"
    and "getCacheFilename pf this1 w' src = (Inr p, this1)"
proof -
  let ?w2 = "settle (length (pending w)) w1"
  from p obtain thisA where gc: "getCacheFilename pf this w src = (Inr p, thisA)"
    by (cases "getCacheFilename pf this w src") simp
  from getCacheFilename_Inr(1) [OF gc]
  obtain dir where dir: "cacheDir thisA = Some dir" "dir \<noteq> []"
    and pd: "p = dir @ [digest_hex (sha1 pf src) @ ''.js'']" by blast
  from pd show pne: "p \<noteq> []" by simp
  have main: "nodes (fs ?w2) p = Some (File out) \<and> fault (fs ?w2) = fault (fs w)
      \<and> babel_inputs ?w2 = babel_inputs w1 \<and> cacheDir this1 = Some dir"
  proof (cases "existsSync (fs w) p")
    case True
    with first gc have eq: "this1 = thisA" "w1 = w"
      and rd: "readFileSync (fs w) p = Inr out"
      by (auto simp: transformWithCache_def split: sum.splits)
    from rd have "nodes (fs w) p = Some (File out)"
      by (auto simp: readFileSync_def split: option.splits if_splits node.splits)
    with eq dir show ?thesis by (simp add: settle_none)
  next
    case False
    obtain r2 this2 w2 where tr: "transform pf thisA w src filename = (r2, this2, w2)"
      by (cases "transform pf thisA w src filename")
    from first transformWithCache_miss [OF gc False, of filename] tr
    have res: "r2 = Inr out" "this1 = this2" "w1 = cacheWriteAsync pf p out w2"
      by (auto split: sum.splits)
    let ?wb = "\<lparr> wb_basedir = path_dirname p,
        wb_tmpName = path_dirname p @ [''.'' @ uuid_v4 pf (uuids_drawn w2)],
        wb_filename = p, wb_src = out \<rparr>"
    have "pending w1 = pending w @ [?wb]"
      using transform_frame(2) [OF tr] by (simp add: res(3) cacheWriteAsync_frame)
    from settle_last [OF this]
    have run: "?w2 = run_writeback ?wb (w1\<lparr>pending := pending w\<rparr>)" .
    from written have "console (run_writeback ?wb (w1\<lparr>pending := pending w\<rparr>))
        = console (w1\<lparr>pending := pending w\<rparr>)"
      by (simp add: run)
    from run_writeback_quiet [OF this]
    have node: "nodes (fs ?w2) p = Some (File out)"
      by (simp add: run)
    have "fault (fs ?w2) = fault (fs w1)"
      by (simp add: run run_writeback_fault)
    also have "fs w1 = fs w"
      using transform_frame(1) [OF tr] by (simp add: res(3) cacheWriteAsync_frame)
    finally have flt: "fault (fs ?w2) = fault (fs w)" .
    have inp: "babel_inputs ?w2 = babel_inputs w1"
      by (simp add: run run_writeback_frame)
    have "cacheDir this1 = Some dir"
      using res(2) transform_frame(4) [OF tr] dir by simp
    with node flt inp show ?thesis by simp
  qed
  then show "nodes (fs ?w2) p = Some (File out)" "fault (fs ?w2) = fault (fs w)"
    "babel_inputs ?w2 = babel_inputs w1" by simp_all
  from main have "cacheDir this1 = Some dir" by simp
  from getCacheFilename_again [OF this dir(2)] pd
  show "getCacheFilename pf this1 w' src = (Inr p, this1)" by simp
qed

text \<open>
  C1, as the code has it. A call of \<^verbatim>\<open>transformWithCache\<close> returned \<open>out\<close>, and the
  write-back it started (if it started one) has completed without reporting a failure;
  \<open>p\<close> is the cache file of the source. If the existence check and the read of \<open>p\<close> do
  not fail, a second call with the same source returns the same bytes \<open>out\<close>, hands nothing
  to the engine and leaves the world as it found it. The bytes come from the cache file: it
  holds \<open>out\<close>, and if its contents are replaced by any bytes \<open>c\<close>, the second call
  returns \<open>c\<close>. This holds for every source, in particular for those that
  \<^verbatim>\<open>shouldCompile\<close> accepts, and whatever other write-backs are still pending.
\<close>

theorem transformWithCache_round_trip:
  assumes first: "transformWithCache pf this w src filename = (Inr out, this1, w1)"
      and w2: "w2 = settle (length (pending w)) w1"
      and written: "console w2 = console w1"
      and p: "fst (getCacheFilename pf this w src) = Inr p"
      and lookups: "fault (fs w2) (Stat p) = None" "fault (fs w2) (Read p) = None"
  shows "transformWithCache pf this1 w2 src filename = (Inr out, this1, w2)
       \<and> babel_inputs w2 = babel_inputs w1
       \<and> readFileSync (fs w2) p = Inr out
       \<and> transformWithCache pf this1
            (w2\<lparr>fs := (fs w2)\<lparr>nodes := (nodes (fs w2))(p \<mapsto> File c)\<rparr>\<rparr>) src filename
           = (Inr c, this1, w2\<lparr>fs := (fs w2)\<lparr>nodes := (nodes (fs w2))(p \<mapsto> File c)\<rparr>\<rparr>)"
proof -
  note entry = settled_entry [OF first written [unfolded w2] p, folded w2]
  have ex: "existsSync (fs w2) p"
    using entry(1) lookups(1) by (simp add: existsSync_def)
  have rd: "readFileSync (fs w2) p = Inr out"
    using entry(1,4) lookups(2) by (simp add: readFileSync_def)
  let ?w3 = "w2\<lparr>fs := (fs w2)\<lparr>nodes := (nodes (fs w2))(p \<mapsto> File c)\<rparr>\<rparr>"
  have ex3: "existsSync (fs ?w3) p"
    using lookups(1) by (simp add: existsSync_def)
  have rd3: "readFileSync (fs ?w3) p = Inr c"
    using entry(4) lookups(2) by (simp add: readFileSync_def)
  from transformWithCache_hit [OF entry(5) ex rd] transformWithCache_hit [OF entry(5) ex3 rd3]
    entry(3) rd
  show ?thesis by simp
qed

lemma fold_run_writeback_fault:
  "fault (fs (fold run_writeback wbs w)) = fault (fs w)"
  by (induction wbs arbitrary: w) (simp_all add: run_writeback_fault)

lemma settle_fault: "fault (fs (settle n w)) = fault (fs w)"
  by (simp add: settle_def fold_run_writeback_fault)

lemma sample_cache_filename:
  "fst (getCacheFilename sample_platform sample_transpiler sample_world sample_src)
     = Inr sample_cache_file"
  by (simp add: eval_defs sample_defs cached_defs)

theorem transformWithCache_round_trip_witness:
  "shouldCompile sample_src
   \<and> fst sample_first = Inr ''compiled:/* @flow */ f()''
   \<and> fst (getCacheFilename sample_platform sample_transpiler sample_world sample_src)
       = Inr sample_cache_file
   \<and> console (settle (length (pending sample_world)) (snd (snd sample_first)))
       = console (snd (snd sample_first))
   \<and> fst (transformWithCache sample_platform (fst (snd sample_first))
             (settle (length (pending sample_world)) (snd (snd sample_first))) sample_src ''f.js'')
       = Inr ''compiled:/* @flow */ f()''
   \<and> babel_inputs (snd (snd (transformWithCache sample_platform (fst (snd sample_first))
             (settle (length (pending sample_world)) (snd (snd sample_first))) sample_src ''f.js'')))
       = [sample_src]
   \<and> readFileSync (fs (settle (length (pending sample_world)) (snd (snd sample_first))))
         sample_cache_file = Inr ''compiled:/* @flow */ f()''
   \<and> fst (transformWithCache sample_platform (fst (snd sample_first))
             ((settle (length (pending sample_world)) (snd (snd sample_first)))
                \<lparr>fs := (fs (settle (length (pending sample_world)) (snd (snd sample_first))))
                   \<lparr>nodes := (nodes (fs (settle (length (pending sample_world))
                        (snd (snd sample_first)))))(sample_cache_file \<mapsto> File ''other bytes'')\<rparr>\<rparr>)
             sample_src ''f.js'')
       = Inr ''other bytes''"
proof -
  let ?w2 = "settle (length (pending sample_world)) (snd (snd sample_first))"
  have h1: "transformWithCache sample_platform sample_transpiler sample_world sample_src ''f.js''
      = (Inr ''compiled:/* @flow */ f()'', fst (snd sample_first), snd (snd sample_first))"
    using sample_first_call by (simp add: sample_first_def prod_eq_iff)
  have idle: "pending sample_world = []"
    by (simp add: sample_world_def)
  have h2: "console ?w2 = console (snd (snd sample_first))"
    by (simp add: idle settle_0 sample_writeback_console sample_first_console)
  have h3: "fault (fs ?w2) (Stat sample_cache_file) = None" "fault (fs ?w2) (Read sample_cache_file) = None"
    by (simp_all add: settle_fault sample_first_fs sample_world_def)
  have h5: "shouldCompile sample_src"
    by (simp add: shouldCompile_def PREFIXES_def PREFIX_LENGTH_def sample_src_def)
  from transformWithCache_round_trip [OF h1 refl h2 sample_cache_filename h3, of "''other bytes''"]
    h2 h5 sample_first_call sample_first_inputs sample_cache_filename
  show ?thesis by simp
qed

lemma empty_cache_writeback_quiet:
  assumes "nodes (fs w) = sample_nodes"
      and "fault (fs w) (Mkdirp sample_cache_dir) = None"
      and "fault (fs w) (WriteFile (sample_cache_dir @ [''.u''])) = None"
      and "fault (fs w) (Rename (sample_cache_dir @ [''.u'']) sample_cache_file) = None"
  shows "console (run_writeback sample_writeback w) = console w"
  using assms
  by (simp add: run_writeback_def sample_writeback_def mkdirp_def writeFile_def rename_def
      is_file_def is_dir_def path_dirname_def sample_nodes_def sample_cache_dir_def
      sample_cache_file_def)

lemma faulty_world_simps:
  "pending (faulty_world denied) = []"
  "fault (fs (faulty_world denied)) = map_of denied"
  "nodes (fs (faulty_world denied)) = sample_nodes"
  by (simp_all add: faulty_world_def sample_world_def)

lemma unreadable_first_simps:
  "fst (faulty_first [(Read sample_cache_file, EACCES)]) = Inr ''compiled:/* @flow */ f()''"
  "pending (snd (snd (faulty_first [(Read sample_cache_file, EACCES)]))) = [sample_writeback]"
  "console (snd (snd (faulty_first [(Read sample_cache_file, EACCES)]))) = []"
  "babel_inputs (snd (snd (faulty_first [(Read sample_cache_file, EACCES)]))) = [sample_src]"
  "fs (snd (snd (faulty_first [(Read sample_cache_file, EACCES)])))
     = fs (faulty_world [(Read sample_cache_file, EACCES)])"
  "fst (getCacheFilename sample_platform sample_transpiler
      (faulty_world [(Read sample_cache_file, EACCES)]) sample_src) = Inr sample_cache_file"
  by (simp_all add: faulty_first_def faulty_world_def eval_defs sample_defs cached_defs
      sample_writeback_def)

lemma unstattable_first_simps:
  "fst (faulty_first [(Stat sample_cache_file, EACCES)]) = Inr ''compiled:/* @flow */ f()''"
  "pending (snd (snd (faulty_first [(Stat sample_cache_file, EACCES)]))) = [sample_writeback]"
  "console (snd (snd (faulty_first [(Stat sample_cache_file, EACCES)]))) = []"
  "babel_inputs (snd (snd (faulty_first [(Stat sample_cache_file, EACCES)]))) = [sample_src]"
  "fs (snd (snd (faulty_first [(Stat sample_cache_file, EACCES)])))
     = fs (faulty_world [(Stat sample_cache_file, EACCES)])"
  "fst (getCacheFilename sample_platform sample_transpiler
      (faulty_world [(Stat sample_cache_file, EACCES)]) sample_src) = Inr sample_cache_file"
  by (simp_all add: faulty_first_def faulty_world_def eval_defs sample_defs cached_defs
      sample_writeback_def)

text \<open>
  What the first call and its write-back leave behind on the sample installation when one
  lookup call on the cache file is refused: the write-back completes without a failure,
  nothing stays pending, and the cache file holds the output.
\<close>

lemma faulty_first_settled:
  assumes call: "denied = [(Read sample_cache_file, EACCES)] \<or> denied = [(Stat sample_cache_file, EACCES)]"
  shows "console (run_pending (snd (snd (faulty_first denied)))) = console (snd (snd (faulty_first denied)))"
    and "pending (run_pending (snd (snd (faulty_first denied)))) = []"
    and "nodes (fs (run_pending (snd (snd (faulty_first denied))))) sample_cache_file
           = Some (File ''compiled:/* @flow */ f()'')"
    and "fault (fs (run_pending (snd (snd (faulty_first denied))))) = map_of denied"
    and "babel_inputs (run_pending (snd (snd (faulty_first denied)))) = [sample_src]"
    and "getCacheFilename sample_platform (fst (snd (faulty_first denied))) w' sample_src
           = (Inr sample_cache_file, fst (snd (faulty_first denied)))"
proof -
  let ?w1 = "snd (snd (faulty_first denied))" and ?this1 = "fst (snd (faulty_first denied))"
  let ?out = "''compiled:/* @flow */ f()''"
  from call have simps: "fst (faulty_first denied) = Inr ?out"
    "pending ?w1 = [sample_writeback]" "console ?w1 = []" "babel_inputs ?w1 = [sample_src]"
    "fs ?w1 = fs (faulty_world denied)"
    "fst (getCacheFilename sample_platform sample_transpiler (faulty_world denied) sample_src)
       = Inr sample_cache_file"
    using unreadable_first_simps unstattable_first_simps by auto
  from call have ok: "map_of denied (Mkdirp sample_cache_dir) = None"
    "map_of denied (WriteFile (sample_cache_dir @ [''.u''])) = None"
    "map_of denied (Rename (sample_cache_dir @ [''.u'']) sample_cache_file) = None"
    by auto
  have run: "run_pending ?w1 = run_writeback sample_writeback (?w1\<lparr>pending := []\<rparr>)"
    by (rule run_pending_single) (rule simps)
  show quiet: "console (run_pending ?w1) = console ?w1"
    unfolding run
    using empty_cache_writeback_quiet [of "?w1\<lparr>pending := []\<rparr>"]
    by (simp add: simps faulty_world_simps ok)
  show "pending (run_pending ?w1) = []"
    by (simp add: run run_writeback_frame)
  have first: "transformWithCache sample_platform sample_transpiler (faulty_world denied) sample_src ''f.js''
      = (Inr ?out, ?this1, ?w1)"
    using simps(1) by (simp add: faulty_first_def prod_eq_iff)
  have written: "console (settle (length (pending (faulty_world denied))) ?w1) = console ?w1"
    by (simp add: faulty_world_simps settle_0 quiet)
  note entry = settled_entry [OF first written simps(6),
      unfolded faulty_world_simps list.size settle_0]
  from entry(1) show "nodes (fs (run_pending ?w1)) sample_cache_file = Some (File ?out)" .
  from entry(2) show "fault (fs (run_pending ?w1)) = map_of denied" .
  from entry(3) simps(4) show "babel_inputs (run_pending ?w1) = [sample_src]" by simp
  from entry(5) show "getCacheFilename sample_platform ?this1 w' sample_src
      = (Inr sample_cache_file, ?this1)" .
qed

text \<open>
  C1 as stated fails where a lookup call on the cache file fails. The source is accepted by
  the prefilter, the first call returns the output, its write-back completes without a
  failure, nothing is left pending and the cache file holds the output. With the read
  refused the second call throws the permission error; with the existence check refused
  the second call hands the source to the engine again.
\<close>

theorem round_trip_fails_on_lookup_failure:
  "shouldCompile sample_src
   \<and> fst (faulty_first [(Read sample_cache_file, EACCES)]) = Inr ''compiled:/* @flow */ f()''
   \<and> console (run_pending (snd (snd (faulty_first [(Read sample_cache_file, EACCES)]))))
       = console (snd (snd (faulty_first [(Read sample_cache_file, EACCES)])))
   \<and> pending (run_pending (snd (snd (faulty_first [(Read sample_cache_file, EACCES)])))) = []
   \<and> nodes (fs (run_pending (snd (snd (faulty_first [(Read sample_cache_file, EACCES)])))))
         sample_cache_file = Some (File ''compiled:/* @flow */ f()'')
   \<and> fst (transformWithCache sample_platform (fst (snd (faulty_first [(Read sample_cache_file, EACCES)])))
             (run_pending (snd (snd (faulty_first [(Read sample_cache_file, EACCES)]))))
             sample_src ''f.js'')
       = Inl (FsError EACCES)
   \<and> fst (faulty_first [(Stat sample_cache_file, EACCES)]) = Inr ''compiled:/* @flow */ f()''
   \<and> console (run_pending (snd (snd (faulty_first [(Stat sample_cache_file, EACCES)]))))
       = console (snd (snd (faulty_first [(Stat sample_cache_file, EACCES)])))
   \<and> pending (run_pending (snd (snd (faulty_first [(Stat sample_cache_file, EACCES)])))) = []
   \<and> nodes (fs (run_pending (snd (snd (faulty_first [(Stat sample_cache_file, EACCES)])))))
         sample_cache_file = Some (File ''compiled:/* @flow */ f()'')
   \<and> babel_inputs (snd (snd (transformWithCache sample_platform
             (fst (snd (faulty_first [(Stat sample_cache_file, EACCES)])))
             (run_pending (snd (snd (faulty_first [(Stat sample_cache_file, EACCES)]))))
             sample_src ''f.js'')))
       = [sample_src, sample_src]"
proof -
  let ?r = "[(Read sample_cache_file, EACCES)]" and ?s = "[(Stat sample_cache_file, EACCES)]"
  note r = faulty_first_settled [of ?r] and s = faulty_first_settled [of ?s]
  have h5: "shouldCompile sample_src"
    by (simp add: shouldCompile_def PREFIXES_def PREFIX_LENGTH_def sample_src_def)
  have ex: "existsSync (fs (run_pending (snd (snd (faulty_first ?r))))) sample_cache_file"
    by (simp add: existsSync_def r)
  have rd: "readFileSync (fs (run_pending (snd (snd (faulty_first ?r))))) sample_cache_file = Inl EACCES"
    by (simp add: readFileSync_fault r)
  have nex: "\<not> existsSync (fs (run_pending (snd (snd (faulty_first ?s))))) sample_cache_file"
    by (simp add: existsSync_def s)
  have R: "fst (transformWithCache sample_platform (fst (snd (faulty_first ?r)))
             (run_pending (snd (snd (faulty_first ?r)))) sample_src ''f.js'') = Inl (FsError EACCES)"
    using transformWithCache_unreadable [OF r(6) ex rd, of "''f.js''"] by simp
  have S: "babel_inputs (snd (snd (transformWithCache sample_platform (fst (snd (faulty_first ?s)))
             (run_pending (snd (snd (faulty_first ?s)))) sample_src ''f.js''))) = [sample_src, sample_src]"
    using transformWithCache_miss_result(2) [OF s(6) nex, of "''f.js''"] by (simp add: s)
  from h5 R S r(1,2,3) s(1,2,3) unreadable_first_simps(1) unstattable_first_simps(1)
  show ?thesis by simp
qed

section \<open>The protocol of the write-back\<close>

lemma hexdigit_not_dot: "hexdigit n \<noteq> CHR ''.''"
proof -
  have "hexdigit n \<in> set ''0123456789abcdef''"
    unfolding hexdigit_def by (rule nth_mem) simp
  then show ?thesis by auto
qed

lemma dot_name_not_digest: "''.'' @ u \<noteq> digest_hex h @ ext"
proof -
  have "digest_hex h = hexdigit (nibble h 39) # map (\<lambda>i. hexdigit (nibble h (39 - i))) [1..<40]"
    by (simp add: digest_hex_def upt_conv_Cons del: upt_Suc)
  then show ?thesis
    using hexdigit_not_dot [of "nibble h 39"] by auto
qed

text \<open>The temporary name that \<^verbatim>\<open>cacheWriteAsync\<close> picks, against the other names.\<close>

lemma cacheWriteAsync_names:
  assumes wb: "wb = last (pending (cacheWriteAsync pf p out w0))"
  shows "pending (cacheWriteAsync pf p out w0) = pending w0 @ [wb]"
    and "uuids_drawn (cacheWriteAsync pf p out w0) = Suc (uuids_drawn w0)"
    and "inj (uuid_v4 pf) \<Longrightarrow> uuids_drawn w' \<noteq> uuids_drawn w0 \<Longrightarrow>
           wb_tmpName (last (pending (cacheWriteAsync pf p' out' w'))) \<noteq> wb_tmpName wb"
    and "inj (uuid_v4 pf) \<Longrightarrow>
           wb_tmpName (last (pending (cacheWriteAsync pf p' out' (cacheWriteAsync pf p out w0))))
             \<noteq> wb_tmpName wb"
    and "wb_tmpName wb \<noteq> path_join dir [digest_hex h @ ''.js'']"
proof -
  have name: "wb_tmpName (last (pending (cacheWriteAsync pf q c v)))
      = path_dirname q @ [''.'' @ uuid_v4 pf (uuids_drawn v)]" for q c v
    by (simp add: cacheWriteAsync_frame)
  show "pending (cacheWriteAsync pf p out w0) = pending w0 @ [wb]"
    by (simp add: wb cacheWriteAsync_frame)
  show drawn: "uuids_drawn (cacheWriteAsync pf p out w0) = Suc (uuids_drawn w0)"
    by (simp add: cacheWriteAsync_def Let_def)
  show later: "wb_tmpName (last (pending (cacheWriteAsync pf p' out' w'))) \<noteq> wb_tmpName wb"
    if "inj (uuid_v4 pf)" "uuids_drawn w' \<noteq> uuids_drawn w0" for w' p' out'
    using that by (auto simp: wb name dest: injD)
  show "wb_tmpName (last (pending (cacheWriteAsync pf p' out' (cacheWriteAsync pf p out w0))))
      \<noteq> wb_tmpName wb" if "inj (uuid_v4 pf)"
    using later [OF that, of "cacheWriteAsync pf p out w0" p' out'] drawn by simp
  show "wb_tmpName wb \<noteq> path_join dir [digest_hex h @ ''.js'']"
    using dot_name_not_digest [of "uuid_v4 pf (uuids_drawn w0)" h "''.js''"]
    by (auto simp: wb name path_join_def)
qed

text \<open>
  C3, as the code has it. \<^verbatim>\<open>cacheWriteAsync\<close> draws a uuid and starts one write-back
  for the cache file \<open>p\<close>, whose temporary file is named \<open>.\<close> followed by that uuid, in
  the directory of \<open>p\<close>. The name is unique: as \<^verbatim>\<open>uuid.v4()\<close> never returns a value
  twice, it differs from the temporary name of every write-back started at another draw, in
  particular of the next one, even for the same cache file; and it is never the name of a
  cache entry. When the callbacks run: the directory is made, the whole output is written to
  the temporary file, and the temporary file is renamed to \<open>p\<close>, after which \<open>p\<close> holds the
  whole output. A failure of the directory creation, of the write or of the rename ends the
  write-back with that error printed on the console. After a failed rename the temporary
  file is unlinked; if the unlink fails too, the temporary file stays and that second
  failure is printed nowhere. In every case the write-back only changes files and console.
\<close>

theorem cacheWriteAsync_protocol:
  assumes wb: "wb = last (pending (cacheWriteAsync pf p out w0))"
  shows "wb_filename wb = p \<and> wb_src wb = out \<and> wb_basedir wb = path_dirname p
       \<and> wb_tmpName wb = path_join (path_dirname p) [''.'' @ uuid_v4 pf (uuids_drawn w0)]
       \<and> path_dirname (wb_tmpName wb) = path_dirname p
       \<and> (mkdirp (fs w) (path_dirname p) = Inl e \<longrightarrow>
            run_writeback wb w = w\<lparr>console := console w @ [Transpiler_error e]\<rparr>)
       \<and> (mkdirp (fs w) (path_dirname p) = Inr fs1 \<and> writeFile fs1 (wb_tmpName wb) out = Inl e \<longrightarrow>
            run_writeback wb w = w\<lparr>fs := fs1, console := console w @ [Transpiler_error e]\<rparr>)
       \<and> (mkdirp (fs w) (path_dirname p) = Inr fs1 \<and> writeFile fs1 (wb_tmpName wb) out = Inr fs2
            \<and> rename fs2 (wb_tmpName wb) p = Inl e \<longrightarrow>
              nodes fs2 (wb_tmpName wb) = Some (File out)
            \<and> console (run_writeback wb w) = console w @ [Transpiler_error e]
            \<and> (unlink fs2 (wb_tmpName wb) = Inr fs3 \<longrightarrow>
                  fs (run_writeback wb w) = fs3 \<and> nodes fs3 (wb_tmpName wb) = None)
            \<and> (unlink fs2 (wb_tmpName wb) = Inl e' \<longrightarrow> fs (run_writeback wb w) = fs2))
       \<and> (mkdirp (fs w) (path_dirname p) = Inr fs1 \<and> writeFile fs1 (wb_tmpName wb) out = Inr fs2
            \<and> rename fs2 (wb_tmpName wb) p = Inr fs3 \<longrightarrow>
              nodes fs2 (wb_tmpName wb) = Some (File out)
            \<and> run_writeback wb w = w\<lparr>fs := fs3\<rparr>
            \<and> nodes fs3 p = Some (File out))
       \<and> babel_inputs (run_writeback wb w) = babel_inputs w
       \<and> pending (run_writeback wb w) = pending w
       \<and> uuids_drawn (run_writeback wb w) = uuids_drawn w
       \<and> pending (cacheWriteAsync pf p out w0) = pending w0 @ [wb]
       \<and> uuids_drawn (cacheWriteAsync pf p out w0) = Suc (uuids_drawn w0)
       \<and> (inj (uuid_v4 pf) \<and> uuids_drawn w' \<noteq> uuids_drawn w0 \<longrightarrow>
            wb_tmpName (last (pending (cacheWriteAsync pf p' out' w'))) \<noteq> wb_tmpName wb)
       \<and> (inj (uuid_v4 pf) \<longrightarrow>
            wb_tmpName (last (pending (cacheWriteAsync pf p' out' (cacheWriteAsync pf p out w0))))
              \<noteq> wb_tmpName wb)
       \<and> wb_tmpName wb \<noteq> path_join dir [digest_hex h @ ''.js'']"
proof -
  have fields: "wb_filename wb = p" "wb_src wb = out" "wb_basedir wb = path_dirname p"
    "wb_tmpName wb = path_join (path_dirname p) [''.'' @ uuid_v4 pf (uuids_drawn w0)]"
    by (simp_all add: wb cacheWriteAsync_frame path_join_def)
  have same_dir: "path_dirname (wb_tmpName wb) = path_dirname p"
    by (simp add: fields path_join_def path_dirname_def)
  have mk: "run_writeback wb w = w\<lparr>console := console w @ [Transpiler_error e]\<rparr>"
    if "mkdirp (fs w) (path_dirname p) = Inl e"
    using that by (simp add: run_writeback_def fields(3))
  have wr: "run_writeback wb w = w\<lparr>fs := fs1, console := console w @ [Transpiler_error e]\<rparr>"
    if "mkdirp (fs w) (path_dirname p) = Inr fs1" "writeFile fs1 (wb_tmpName wb) out = Inl e"
    using that by (simp add: run_writeback_def fields(2,3))
  have written: "nodes fs2 (wb_tmpName wb) = Some (File out)"
    if "writeFile fs1 (wb_tmpName wb) out = Inr fs2"
    using writeFile_Inr [OF that] by simp
  have rn: "console (run_writeback wb w) = console w @ [Transpiler_error e]
      \<and> (unlink fs2 (wb_tmpName wb) = Inr fs3 \<longrightarrow>
            fs (run_writeback wb w) = fs3 \<and> nodes fs3 (wb_tmpName wb) = None)
      \<and> (unlink fs2 (wb_tmpName wb) = Inl e' \<longrightarrow> fs (run_writeback wb w) = fs2)"
    if "mkdirp (fs w) (path_dirname p) = Inr fs1" "writeFile fs1 (wb_tmpName wb) out = Inr fs2"
      "rename fs2 (wb_tmpName wb) p = Inl e"
    using that unlink_Inr [of fs2 "wb_tmpName wb" fs3]
    by (auto simp: run_writeback_def fields(1,2,3))
  have ok: "run_writeback wb w = w\<lparr>fs := fs3\<rparr> \<and> nodes fs3 p = Some (File out)"
    if "mkdirp (fs w) (path_dirname p) = Inr fs1" "writeFile fs1 (wb_tmpName wb) out = Inr fs2"
      "rename fs2 (wb_tmpName wb) p = Inr fs3"
    using that writeFile_Inr [OF that(2)] rename_Inr [OF that(3)]
    by (auto simp: run_writeback_def fields(1,2,3))
  have steps: "(mkdirp (fs w) (path_dirname p) = Inl e \<longrightarrow>
            run_writeback wb w = w\<lparr>console := console w @ [Transpiler_error e]\<rparr>)
       \<and> (mkdirp (fs w) (path_dirname p) = Inr fs1 \<and> writeFile fs1 (wb_tmpName wb) out = Inl e \<longrightarrow>
            run_writeback wb w = w\<lparr>fs := fs1, console := console w @ [Transpiler_error e]\<rparr>)
       \<and> (mkdirp (fs w) (path_dirname p) = Inr fs1 \<and> writeFile fs1 (wb_tmpName wb) out = Inr fs2
            \<and> rename fs2 (wb_tmpName wb) p = Inl e \<longrightarrow>
              nodes fs2 (wb_tmpName wb) = Some (File out)
            \<and> console (run_writeback wb w) = console w @ [Transpiler_error e]
            \<and> (unlink fs2 (wb_tmpName wb) = Inr fs3 \<longrightarrow>
                  fs (run_writeback wb w) = fs3 \<and> nodes fs3 (wb_tmpName wb) = None)
            \<and> (unlink fs2 (wb_tmpName wb) = Inl e' \<longrightarrow> fs (run_writeback wb w) = fs2))
       \<and> (mkdirp (fs w) (path_dirname p) = Inr fs1 \<and> writeFile fs1 (wb_tmpName wb) out = Inr fs2
            \<and> rename fs2 (wb_tmpName wb) p = Inr fs3 \<longrightarrow>
              nodes fs2 (wb_tmpName wb) = Some (File out)
            \<and> run_writeback wb w = w\<lparr>fs := fs3\<rparr>
            \<and> nodes fs3 p = Some (File out))"
    using mk wr written rn ok by blast
  note names = cacheWriteAsync_names [OF wb]
  have unique: "(inj (uuid_v4 pf) \<and> uuids_drawn w' \<noteq> uuids_drawn w0 \<longrightarrow>
            wb_tmpName (last (pending (cacheWriteAsync pf p' out' w'))) \<noteq> wb_tmpName wb)
       \<and> (inj (uuid_v4 pf) \<longrightarrow>
            wb_tmpName (last (pending (cacheWriteAsync pf p' out' (cacheWriteAsync pf p out w0))))
              \<noteq> wb_tmpName wb)
       \<and> wb_tmpName wb \<noteq> path_join dir [digest_hex h @ ''.js'']"
    using names(3) [of w' p' out'] names(4) [of p' out'] names(5) [of dir h] by blast
  show ?thesis
    using fields same_dir steps unique names(1,2) run_writeback_frame [of wb w]
    by simp
qed

theorem cacheWriteAsync_protocol_witness:
  "path_dirname (wb_tmpName sample_writeback) = path_dirname sample_cache_file
   \<and> nodes (fs (run_writeback sample_writeback (cached_world []))) sample_cache_file
       = Some (File ''compiled:/* @flow */ f()'')
   \<and> console (run_writeback sample_writeback (cached_world [])) = []
   \<and> console (run_writeback sample_writeback
         (cached_world [(Mkdirp sample_cache_dir, EACCES)])) = [Transpiler_error EACCES]
   \<and> console (run_writeback sample_writeback
         (cached_world [(WriteFile (wb_tmpName sample_writeback), EIO)])) = [Transpiler_error EIO]
   \<and> console (run_writeback sample_writeback
         (cached_world [(Rename (wb_tmpName sample_writeback) sample_cache_file, ENOENT)]))
       = [Transpiler_error ENOENT]
   \<and> nodes (fs (run_writeback sample_writeback
         (cached_world [(Rename (wb_tmpName sample_writeback) sample_cache_file, ENOENT)])))
         (wb_tmpName sample_writeback) = None
   \<and> inj (uuid_v4 sample_platform)
   \<and> uuids_drawn (cacheWriteAsync sample_platform sample_cache_file
         ''compiled:/* @flow */ f()'' (cached_world [])) = 1
   \<and> wb_tmpName (last (pending (cacheWriteAsync sample_platform sample_cache_file ''again''
         (cacheWriteAsync sample_platform sample_cache_file
            ''compiled:/* @flow */ f()'' (cached_world [])))))
       \<noteq> wb_tmpName sample_writeback"
proof -
  let ?out = "''compiled:/* @flow */ f()''"
  let ?tmp = "sample_cache_dir @ [''.u'']"
  let ?fs2 = "\<lambda>denied. (fs (cached_world denied))
      \<lparr>nodes := (nodes (fs (cached_world denied)))(?tmp \<mapsto> File ?out)\<rparr>"
  note [simp] = sample_writeback_simps cached_world_simps
  \<comment> \<open>every step succeeds\<close>
  let ?fs3 = "(?fs2 [])\<lparr>nodes := (nodes (?fs2 []))(?tmp := None, sample_cache_file \<mapsto> File ?out)\<rparr>"
  have a1: "mkdirp (fs (cached_world [])) (path_dirname sample_cache_file) = Inr (fs (cached_world []))"
    by (simp add: cached_mkdirp)
  have a2: "writeFile (fs (cached_world [])) (wb_tmpName sample_writeback) ?out = Inr (?fs2 [])"
    by (simp add: cached_writeFile)
  have a3: "rename (?fs2 []) (wb_tmpName sample_writeback) sample_cache_file = Inr ?fs3"
    by (simp add: rename_file_ok is_dir_def)
  \<comment> \<open>the directory cannot be made\<close>
  let ?m = "[(Mkdirp sample_cache_dir, EACCES)]"
  have b1: "mkdirp (fs (cached_world ?m)) (path_dirname sample_cache_file) = Inl EACCES"
    by (simp add: mkdirp_fault)
  \<comment> \<open>the temporary file cannot be written\<close>
  let ?w = "[(WriteFile (wb_tmpName sample_writeback), EIO)]"
  have c1: "mkdirp (fs (cached_world ?w)) (path_dirname sample_cache_file) = Inr (fs (cached_world ?w))"
    by (simp add: cached_mkdirp)
  have c2: "writeFile (fs (cached_world ?w)) (wb_tmpName sample_writeback) ?out = Inl EIO"
    by (simp add: writeFile_def)
  \<comment> \<open>the rename is refused, the unlink goes through\<close>
  let ?r = "[(Rename (wb_tmpName sample_writeback) sample_cache_file, ENOENT)]"
  let ?fs4 = "(?fs2 ?r)\<lparr>nodes := (nodes (?fs2 ?r))(?tmp := None)\<rparr>"
  have d1: "mkdirp (fs (cached_world ?r)) (path_dirname sample_cache_file) = Inr (fs (cached_world ?r))"
    by (simp add: cached_mkdirp)
  have d2: "writeFile (fs (cached_world ?r)) (wb_tmpName sample_writeback) ?out = Inr (?fs2 ?r)"
    by (simp add: cached_writeFile)
  have d3: "rename (?fs2 ?r) (wb_tmpName sample_writeback) sample_cache_file = Inl ENOENT"
    by (simp add: rename_def)
  have d4: "unlink (?fs2 ?r) (wb_tmpName sample_writeback) = Inr ?fs4"
    by (simp add: unlink_ok)
  note inst = cacheWriteAsync_protocol [OF sample_writeback_last]
  from inst [of "[]" "cached_world []" _ "fs (cached_world [])" "?fs2 []" ?fs3] a1 a2 a3
  have A: "path_dirname (wb_tmpName sample_writeback) = path_dirname sample_cache_file"
    "run_writeback sample_writeback (cached_world []) = (cached_world [])\<lparr>fs := ?fs3\<rparr>"
    by blast+
  from inst [of "[]" "cached_world ?m" EACCES] b1
  have B: "run_writeback sample_writeback (cached_world ?m)
      = (cached_world ?m)\<lparr>console := console (cached_world ?m) @ [Transpiler_error EACCES]\<rparr>"
    by blast
  from inst [of "[]" "cached_world ?w" EIO "fs (cached_world ?w)"] c1 c2
  have C: "run_writeback sample_writeback (cached_world ?w)
      = (cached_world ?w)\<lparr>fs := fs (cached_world ?w),
           console := console (cached_world ?w) @ [Transpiler_error EIO]\<rparr>"
    by blast
  from inst [of "[]" "cached_world ?r" ENOENT "fs (cached_world ?r)" "?fs2 ?r" ?fs4] d1 d2 d3 d4
  have D: "console (run_writeback sample_writeback (cached_world ?r))
      = console (cached_world ?r) @ [Transpiler_error ENOENT]"
    "fs (run_writeback sample_writeback (cached_world ?r)) = ?fs4"
    by blast+
  have inj: "inj (uuid_v4 sample_platform)"
    by (auto simp: sample_platform_def inj_def dest: arg_cong [where f = length])
  have drawn: "uuids_drawn (cached_world []) = 0"
    by (simp add: cached_world_def sample_world_def)
  from inst [of "[]" "cached_world []", where p' = sample_cache_file and out' = "''again''"] inj
  have U: "uuids_drawn (cacheWriteAsync sample_platform sample_cache_file
         ''compiled:/* @flow */ f()'' (cached_world [])) = Suc (uuids_drawn (cached_world []))"
    "wb_tmpName (last (pending (cacheWriteAsync sample_platform sample_cache_file ''again''
         (cacheWriteAsync sample_platform sample_cache_file
            ''compiled:/* @flow */ f()'' (cached_world [])))))
       \<noteq> wb_tmpName sample_writeback"
    by blast+
  show ?thesis
    unfolding A B C D using inj U drawn by simp
qed

end
